theory Spec2Isabelle
  imports Complex_Main "HOL-Library.Multiset" "HOL-Library.Sublist"
    "HOL-Library.Product_Lexorder" "HOL-Library.List_Lexorder" "HOL-Library.Char_ord"
begin

section \<open>Values\<close>

text \<open>
  The program is \<^verbatim>\<open>movie_income.py\<close>: it loads a box-office ranking (from a remote
  service or a local CSV snapshot), normalises it with pandas, exports it and draws five
  charts. This theory embeds the code of that file. What the file calls but does not
  define (the HTTP request, \<^verbatim>\<open>float\<close> on text, \<^verbatim>\<open>pandas.to_datetime\<close>, the file
  system, the clock, the console, the serialisers and the plotting library) is a field of the record
  \<open>env\<close> below; every theorem holds for every such environment.

  A Python \<^verbatim>\<open>float\<close> is a double: a finite value, one of the two infinities, or
  not-a-number. The finite doubles are not singled out among the reals; what rounds is
  the conversion of an integer or of text to a float, and that is either exact (an
  integer of magnitude at most \<open>2 ^ 53\<close>) or left to the environment.
\<close>

datatype pyfloat = Fin real | PInf | NInf | NaN

text \<open>
  Python values that arrive as decoded JSON. \<^verbatim>\<open>json\<close> decodes an integer literal as an
  \<^verbatim>\<open>int\<close> of any size and every other number, also the literals \<^verbatim>\<open>NaN\<close> and
  \<^verbatim>\<open>Infinity\<close> that it accepts, as a \<^verbatim>\<open>float\<close>. A JSON object is the list of its
  bindings, each key once; \<open>map_of\<close> reads it.
\<close>

datatype json =
    JNull
  | JBool bool
  | JInt int
  | JFloat pyfloat
  | JStr string
  | JArr "json list"
  | JObj "(string \<times> json) list"

text \<open>
  A pandas \<^verbatim>\<open>Timestamp\<close>: its position on the time line (nanoseconds since the epoch,
  in UTC for a timestamp that has a time zone), the year of its calendar date (what
  \<^verbatim>\<open>.dt.year\<close> reads) and its time zone, \<open>None\<close> for a naive timestamp. Timestamps
  are compared by \<open>instant\<close>.
\<close>

datatype timestamp = Timestamp (instant: int) (civil_year: int) (zone: "string option")

text \<open>
  A cell of a \<^verbatim>\<open>DataFrame\<close>. \<open>NA\<close> is every missing value (\<^verbatim>\<open>None\<close>, the float
  \<^verbatim>\<open>NaN\<close>, \<^verbatim>\<open>NaT\<close>): pandas treats them alike. \<open>Num\<close> is a finite number, \<open>Inf True\<close>
  and \<open>Inf False\<close> are the floats \<^verbatim>\<open>inf\<close> and \<^verbatim>\<open>-inf\<close>; \<open>Obj\<close> holds a Python list,
  dict or other container.
\<close>

datatype cell =
    NA
  | Num real
  | Inf bool
  | Str string
  | Bool bool
  | TS timestamp
  | Obj json

text \<open>The exceptions the code can raise, named by Python class and origin.\<close>

datatype py_error =
    ValueError_empty_dataset
  | ValueError_float string
  | TypeError_float
  | OverflowError_float
  | AttributeError_get
  | TypeError_not_iterable
  | KeyError_columns "string list"
  | TypeError_datetime
  | ValueError_mixed_timezones
  | TypeError_sort
  | TypeError_dtype string
  | TypeError_add
  | TypeError_unhashable
  | ValueError_date
  | ValueError_pie
  | FetchError
  | FileNotFoundError
  | OSError
  | UnicodeEncodeError

text \<open>
  \<open>ValueError_empty_dataset\<close> is line 52, \<^verbatim>\<open>raise ValueError(...)\<close> with the message
  that the API returned an empty data set; \<open>ValueError_float\<close> and \<open>TypeError_float\<close>
  are what \<^verbatim>\<open>float(x)\<close> raises on text that is no number and on \<^verbatim>\<open>None\<close> or a
  container, \<open>OverflowError_float\<close> what it raises on an integer too large for a
  double;
  \<open>AttributeError_get\<close> is \<^verbatim>\<open>x.get\<close> on a value that is no dict;
  \<open>KeyError_columns\<close> is \<^verbatim>\<open>df[...]\<close> with the columns that are missing;
  \<open>TypeError_datetime\<close> and \<open>ValueError_mixed_timezones\<close> are \<^verbatim>\<open>pd.to_datetime\<close> on
  a column that holds an object that is no timestamp, and on one whose timestamps do
  not share one time zone;
  \<open>TypeError_sort\<close> is \<^verbatim>\<open>sort_values\<close> on a column whose cells cannot be ordered;
  \<open>TypeError_dtype\<close> is \<^verbatim>\<open>nlargest\<close> on a column that is not numeric;
  \<open>TypeError_add\<close> is \<^verbatim>\<open>sum\<close> on cells that cannot be added;
  \<open>TypeError_unhashable\<close> is \<^verbatim>\<open>drop_duplicates\<close> on a list or dict. The others are
  raised outside the file: by the request (\<open>FetchError\<close>), the date parser, the plotting
  library, the file system and the console (\<open>UnicodeEncodeError\<close>, when standard output
  cannot encode a character); only an environment produces them.
\<close>

record frame =
  columns :: "string list"
  rows :: "cell list list"

text \<open>
  What a chart function hands to the plotting library: the points of a line or scatter
  plot with the annotations (label cell, x, y), the wedge sizes and integer labels of a
  pie, the (label, height) pairs of a bar chart.
\<close>

datatype plot =
    LinePlot "(cell \<times> cell) list" "(cell \<times> cell \<times> cell) list"
  | PiePlot "cell list" "int list"
  | BarPlot "(cell \<times> cell) list"
  | ScatterPlot "(cell \<times> cell) list" "(cell \<times> cell \<times> cell) list"

text \<open>
  What is written to disk, at the level of its logical content: the header and rows of
  the CSV, the records of the JSON file, the sheets (name, header, rows) of the
  workbook, the plot of an image, and the run's directory.
\<close>

datatype artifact =
    CsvFile "string list" "cell list list"
  | JsonFile "(string \<times> cell) list list"
  | XlsxFile "(string \<times> string list \<times> cell list list) list"
  | PngFile plot
  | Directory

text \<open>
  A line that \<^verbatim>\<open>main\<close> prints: the two lines of the guard (line 198 with the exception,
  line 199), the heading of line 222, a line of line 224 (the upper-case key and the
  path), the heading of line 225 and a line of line 227.
\<close>

datatype message =
    LoadFailed py_error
  | Hint
  | ExportHeading
  | Exported string string
  | ChartHeading
  | ChartSaved string

record env =
  float_of_str :: "string \<Rightarrow> pyfloat option"
  float_of_int :: "int \<Rightarrow> pyfloat option"
  store_int :: "string \<Rightarrow> int \<Rightarrow> cell"
  to_datetime :: "cell \<Rightarrow> py_error + cell"
  http_json :: "py_error + json"
  path_exists :: "string \<Rightarrow> bool"
  read_csv :: "string \<Rightarrow> py_error + frame"
  now :: string
  emit_error :: "string \<Rightarrow> artifact \<Rightarrow> py_error option"
  print_error :: "message \<Rightarrow> py_error option"

text \<open>
  \<^item> \<open>float_of_str s\<close>: \<^verbatim>\<open>float(s)\<close> on text, \<open>None\<close> when it raises \<^verbatim>\<open>ValueError\<close>;
    the result may be infinite or not-a-number (\<^verbatim>\<open>float('inf')\<close>, \<^verbatim>\<open>float('nan')\<close>);
  \<^item> \<open>float_of_int n\<close>: \<^verbatim>\<open>float(n)\<close> on an integer of magnitude above \<open>2 ^ 53\<close>: the
    nearest double, \<open>None\<close> when it raises \<^verbatim>\<open>OverflowError\<close>;
  \<^item> \<open>store_int c n\<close>: the cell that \<^verbatim>\<open>pd.DataFrame\<close> makes of an integer \<open>n\<close> of
    magnitude above \<open>2 ^ 53\<close> in column \<open>c\<close>: the integer, or the nearest double when
    the other values of the column make it a column of floats;
  \<^item> \<open>to_datetime c\<close>: \<^verbatim>\<open>pd.to_datetime(c)\<close> on one cell: an exception or the value, which
    is a timestamp, \<^verbatim>\<open>NaT\<close> or \<^verbatim>\<open>None\<close> (\<open>NA\<close>), or for a list or dict an index or
    series (\<open>Obj\<close>);
  \<^item> \<open>http_json\<close>: lines 36 to 38 up to \<^verbatim>\<open>resp.json()\<close>: the decoded body, or the
    exception of the request, of \<^verbatim>\<open>raise_for_status\<close> or of the decoder;
  \<^item> \<open>path_exists\<close>, \<open>read_csv\<close>: \<^verbatim>\<open>os.path.exists\<close> and \<^verbatim>\<open>pd.read_csv\<close>;
  \<^item> \<open>now\<close>: the timestamp text of line 206;
  \<^item> \<open>emit_error p a\<close>: the exception, if any, of the library call that writes artifact
    \<open>a\<close> to path \<open>p\<close> (the serialiser, the plotting library, the file system); when it
    raises, the file is not written (a file that the library leaves behind unfinished
    is no artifact);
  \<^item> \<open>print_error m\<close>: the exception, if any, of \<^verbatim>\<open>print\<close> on the line \<open>m\<close>: lines 198,
    199, 222 and 225 hold non-ASCII characters, and the paths of lines 224 and 227
    hold those of the chart names.
\<close>

section \<open>Column names\<close>

text \<open>
  Strings are lists of bytes; the Chinese column names are their UTF-8 encodings.
  \<open>col_rank\<close> is U+6392 U+540D, \<open>col_name\<close> U+7535 U+5F71 U+540D U+79F0,
  \<open>col_release\<close> U+4E0A U+6620 U+65F6 U+95F4,
  \<open>col_box\<close> U+603B U+7968 U+623F ( U+4E07 U+5143 ),
  \<open>col_price\<close> U+5E73 U+5747 U+7968 U+4EF7 ( U+5143 ),
  \<open>col_audience\<close> U+5E73 U+5747 U+573A U+6B21 U+89C2 U+4F17 U+6570,
  \<open>col_parsed\<close> U+4E0A U+6620 U+65E5 U+671F U+89E3 U+6790 and
  \<open>col_year\<close> U+5E74 U+4EFD.
\<close>

definition col_rank :: string where
  "col_rank = [CHR 0xE6, CHR 0x8E, CHR 0x92, CHR 0xE5, CHR 0x90, CHR 0x8D]"

definition col_name :: string where
  "col_name = [CHR 0xE7, CHR 0x94, CHR 0xB5, CHR 0xE5, CHR 0xBD, CHR 0xB1, CHR 0xE5, CHR 0x90,
     CHR 0x8D, CHR 0xE7, CHR 0xA7, CHR 0xB0]"

definition col_release :: string where
  "col_release = [CHR 0xE4, CHR 0xB8, CHR 0x8A, CHR 0xE6, CHR 0x98, CHR 0xA0, CHR 0xE6, CHR 0x97,
     CHR 0xB6, CHR 0xE9, CHR 0x97, CHR 0xB4]"

definition col_box :: string where
  "col_box = [CHR 0xE6, CHR 0x80, CHR 0xBB, CHR 0xE7, CHR 0xA5, CHR 0xA8, CHR 0xE6, CHR 0x88,
     CHR 0xBF, CHR 0x28, CHR 0xE4, CHR 0xB8, CHR 0x87, CHR 0xE5, CHR 0x85, CHR 0x83, CHR 0x29]"

definition col_price :: string where
  "col_price = [CHR 0xE5, CHR 0xB9, CHR 0xB3, CHR 0xE5, CHR 0x9D, CHR 0x87, CHR 0xE7, CHR 0xA5,
     CHR 0xA8, CHR 0xE4, CHR 0xBB, CHR 0xB7, CHR 0x28, CHR 0xE5, CHR 0x85, CHR 0x83, CHR 0x29]"

definition col_audience :: string where
  "col_audience = [CHR 0xE5, CHR 0xB9, CHR 0xB3, CHR 0xE5, CHR 0x9D, CHR 0x87, CHR 0xE5, CHR 0x9C,
     CHR 0xBA, CHR 0xE6, CHR 0xAC, CHR 0xA1, CHR 0xE8, CHR 0xA7, CHR 0x82, CHR 0xE4, CHR 0xBC,
     CHR 0x97, CHR 0xE6, CHR 0x95, CHR 0xB0]"

definition col_parsed :: string where
  "col_parsed = [CHR 0xE4, CHR 0xB8, CHR 0x8A, CHR 0xE6, CHR 0x98, CHR 0xA0, CHR 0xE6, CHR 0x97,
     CHR 0xA5, CHR 0xE6, CHR 0x9C, CHR 0x9F, CHR 0xE8, CHR 0xA7, CHR 0xA3, CHR 0xE6, CHR 0x9E,
     CHR 0x90]"

definition col_year :: string where
  "col_year = [CHR 0xE5, CHR 0xB9, CHR 0xB4, CHR 0xE4, CHR 0xBB, CHR 0xBD]"

section \<open>Remote ingestion: \<^verbatim>\<open>fetch_online\<close>\<close>

text \<open>Python's truth value of a decoded JSON value, and \<^verbatim>\<open>a or b\<close>.\<close>

fun truthy :: "json \<Rightarrow> bool" where
  "truthy JNull = False"
| "truthy (JBool b) = b"
| "truthy (JInt n) = (n \<noteq> 0)"
| "truthy (JFloat f) = (f \<noteq> Fin 0)"
| "truthy (JStr s) = (s \<noteq> [])"
| "truthy (JArr xs) = (xs \<noteq> [])"
| "truthy (JObj kv) = (kv \<noteq> [])"

definition py_or :: "json \<Rightarrow> json \<Rightarrow> json" where
  "py_or a b = (if truthy a then a else b)"

text \<open>\<^verbatim>\<open>d.get(k, dflt)\<close> on a dict, and on any value (only a dict has \<^verbatim>\<open>get\<close>).\<close>

definition dict_get :: "(string \<times> json) list \<Rightarrow> string \<Rightarrow> json \<Rightarrow> json" where
  "dict_get d k dflt = (case map_of d k of None \<Rightarrow> dflt | Some v \<Rightarrow> v)"

definition py_get :: "json \<Rightarrow> string \<Rightarrow> json \<Rightarrow> py_error + json" where
  "py_get x k dflt = (case x of JObj d \<Rightarrow> Inr (dict_get d k dflt) | _ \<Rightarrow> Inl AttributeError_get)"

text \<open>
  \<^verbatim>\<open>float(v)\<close>. An integer of magnitude at most \<open>2 ^ 53\<close> is a double; a larger one is
  rounded to the nearest double or raises \<^verbatim>\<open>OverflowError\<close>. A float is returned as it
  is, \<^verbatim>\<open>True\<close> and \<^verbatim>\<open>False\<close> are 1.0 and 0.0.
\<close>

definition int_to_float :: "env \<Rightarrow> int \<Rightarrow> py_error + pyfloat" where
  "int_to_float env n =
     (if \<bar>n\<bar> \<le> 2 ^ 53 then Inr (Fin (of_int n))
      else (case float_of_int env n of None \<Rightarrow> Inl OverflowError_float | Some f \<Rightarrow> Inr f))"

fun py_float :: "env \<Rightarrow> json \<Rightarrow> py_error + pyfloat" where
  "py_float env (JInt n) = int_to_float env n"
| "py_float env (JFloat f) = Inr f"
| "py_float env (JBool b) = Inr (Fin (if b then 1 else 0))"
| "py_float env (JStr s) =
     (case float_of_str env s of None \<Rightarrow> Inl (ValueError_float s) | Some f \<Rightarrow> Inr f)"
| "py_float env JNull = Inl TypeError_float"
| "py_float env (JArr xs) = Inl TypeError_float"
| "py_float env (JObj kv) = Inl TypeError_float"

text \<open>Lines 45 to 47: \<^verbatim>\<open>float(item.get(k, 0) or 0)\<close>.\<close>

definition num_field :: "env \<Rightarrow> (string \<times> json) list \<Rightarrow> string \<Rightarrow> py_error + pyfloat" where
  "num_field env d k = py_float env (py_or (dict_get d k (JInt 0)) (JInt 0))"

text \<open>
  A float, and a decoded JSON value in a given column, as the frame of line 50 stores
  them: not-a-number is a missing cell, and every value keeps its value but for an
  integer above \<open>2 ^ 53\<close>.
\<close>

fun cell_of_float :: "pyfloat \<Rightarrow> cell" where
  "cell_of_float (Fin x) = Num x"
| "cell_of_float PInf = Inf True"
| "cell_of_float NInf = Inf False"
| "cell_of_float NaN = NA"

fun cell_of_json :: "env \<Rightarrow> string \<Rightarrow> json \<Rightarrow> cell" where
  "cell_of_json env c JNull = NA"
| "cell_of_json env c (JBool b) = Bool b"
| "cell_of_json env c (JInt n) = (if \<bar>n\<bar> \<le> 2 ^ 53 then Num (of_int n) else store_int env c n)"
| "cell_of_json env c (JFloat f) = cell_of_float f"
| "cell_of_json env c (JStr s) = Str s"
| "cell_of_json env c (JArr xs) = Obj (JArr xs)"
| "cell_of_json env c (JObj kv) = Obj (JObj kv)"

text \<open>
  Lines 40 to 48. The result is the dict in the order its keys are written, each value
  as the cell that the frame of line 50 holds for it. The three \<^verbatim>\<open>float\<close> calls are
  evaluated in that order, so the first one that raises decides the exception.
\<close>

definition to_row :: "env \<Rightarrow> json \<Rightarrow> py_error + (string \<times> cell) list" where
  "to_row env item =
     (case item of
        JObj d \<Rightarrow>
          (case num_field env d ''BoxOffice'' of
             Inl e \<Rightarrow> Inl e
           | Inr box \<Rightarrow>
               (case num_field env d ''AvgBoxOffice'' of
                  Inl e \<Rightarrow> Inl e
                | Inr price \<Rightarrow>
                    (case num_field env d ''AvgAudienceCount'' of
                       Inl e \<Rightarrow> Inl e
                     | Inr aud \<Rightarrow>
                         Inr [(col_rank, cell_of_json env col_rank (dict_get d ''Irank'' JNull)),
                              (col_name, cell_of_json env col_name (dict_get d ''MovieName'' JNull)),
                              (col_release, cell_of_json env col_release (dict_get d ''ReleaseTime'' JNull)),
                              (col_box, cell_of_float box),
                              (col_price, cell_of_float price),
                              (col_audience, cell_of_float aud)])))
      | _ \<Rightarrow> Inl AttributeError_get)"

text \<open>
  The three numeric fields of an entry with the columns they fill, and the float that
  lines 45 to 47 make of a field, case by case: 0.0 for a field that is absent, null
  or otherwise falsy (\<^verbatim>\<open>False\<close>, 0, 0.0, empty text, an empty list or object); the float
  of a number, which for a large integer is rounded or \<^verbatim>\<open>OverflowError\<close>; the float
  that non-empty text denotes, or \<^verbatim>\<open>ValueError\<close>; \<^verbatim>\<open>TypeError\<close> for a non-empty list or
  object.
\<close>

definition numeric_fields :: "(string \<times> string) list" where
  "numeric_fields =
     [(''BoxOffice'', col_box), (''AvgBoxOffice'', col_price), (''AvgAudienceCount'', col_audience)]"

definition field_float :: "env \<Rightarrow> json option \<Rightarrow> py_error + pyfloat" where
  "field_float env v =
     (case v of
        None \<Rightarrow> Inr (Fin 0)
      | Some JNull \<Rightarrow> Inr (Fin 0)
      | Some (JBool b) \<Rightarrow> Inr (Fin (if b then 1 else 0))
      | Some (JInt n) \<Rightarrow> int_to_float env n
      | Some (JFloat f) \<Rightarrow> Inr f
      | Some (JStr s) \<Rightarrow>
          (if s = [] then Inr (Fin 0)
           else case float_of_str env s of None \<Rightarrow> Inl (ValueError_float s) | Some f \<Rightarrow> Inr f)
      | Some (JArr xs) \<Rightarrow> (if xs = [] then Inr (Fin 0) else Inl TypeError_float)
      | Some (JObj kv) \<Rightarrow> (if kv = [] then Inr (Fin 0) else Inl TypeError_float))"

text \<open>
  What an entry becomes, stated field by field: rank, title and release text are the
  entry's values as they are (missing when the entry has none; an integer above
  \<open>2 ^ 53\<close> as the frame stores it), the three numbers are the floats above. The first
  numeric field that raises decides the exception.
\<close>

definition source_cell :: "env \<Rightarrow> string \<Rightarrow> (string \<times> json) list \<Rightarrow> string \<Rightarrow> cell" where
  "source_cell env c d k = (case map_of d k of None \<Rightarrow> NA | Some v \<Rightarrow> cell_of_json env c v)"

definition mapped_entry :: "env \<Rightarrow> (string \<times> json) list \<Rightarrow> py_error + (string \<times> cell) list" where
  "mapped_entry env d =
     (case field_float env (map_of d ''BoxOffice'') of
        Inl e \<Rightarrow> Inl e
      | Inr box \<Rightarrow>
          (case field_float env (map_of d ''AvgBoxOffice'') of
             Inl e \<Rightarrow> Inl e
           | Inr price \<Rightarrow>
               (case field_float env (map_of d ''AvgAudienceCount'') of
                  Inl e \<Rightarrow> Inl e
                | Inr aud \<Rightarrow>
                    Inr [(col_rank, source_cell env col_rank d ''Irank''),
                         (col_name, source_cell env col_name d ''MovieName''),
                         (col_release, source_cell env col_release d ''ReleaseTime''),
                         (col_box, cell_of_float box),
                         (col_price, cell_of_float price),
                         (col_audience, cell_of_float aud)])))"
section \<open>Frames\<close>

text \<open>
  A frame is row-major: \<open>columns\<close> are the column labels in order and every row has one
  cell per column. \<open>cell_at\<close> reads a row by label, \<open>column\<close> is \<^verbatim>\<open>df[c]\<close> for a label
  of the frame. \<^verbatim>\<open>pd.read_csv\<close> makes the labels of a frame distinct.
\<close>

definition wf_frame :: "frame \<Rightarrow> bool" where
  "wf_frame df \<longleftrightarrow>
     distinct (columns df) \<and> list_all (\<lambda>r. length r = length (columns df)) (rows df)"

definition cell_at :: "string list \<Rightarrow> cell list \<Rightarrow> string \<Rightarrow> cell" where
  "cell_at cols r c = (case map_of (zip cols r) c of Some v \<Rightarrow> v | None \<Rightarrow> NA)"

definition column :: "frame \<Rightarrow> string \<Rightarrow> cell list" where
  "column df c = map (\<lambda>r. cell_at (columns df) r c) (rows df)"

fun index_of :: "'a \<Rightarrow> 'a list \<Rightarrow> nat" where
  "index_of c [] = 0"
| "index_of c (x # xs) = (if x = c then 0 else Suc (index_of c xs))"

text \<open>
  \<^verbatim>\<open>df[c] = vals\<close> with one value per row: a new label is appended as the last column,
  an existing one is overwritten in place.
\<close>

definition set_column :: "frame \<Rightarrow> string \<Rightarrow> cell list \<Rightarrow> frame" where
  "set_column df c vals =
     (if c \<in> set (columns df)
      then df\<lparr>rows := map (\<lambda>(r, v). r[index_of c (columns df) := v]) (zip (rows df) vals)\<rparr>
      else df\<lparr>columns := columns df @ [c],
              rows := map (\<lambda>(r, v). r @ [v]) (zip (rows df) vals)\<rparr>)"

text \<open>\<^verbatim>\<open>df[cs]\<close> for a list of labels: \<^verbatim>\<open>KeyError\<close> names the labels that are missing.\<close>

definition select_columns :: "frame \<Rightarrow> string list \<Rightarrow> py_error + frame" where
  "select_columns df cs =
     (case filter (\<lambda>c. c \<notin> set (columns df)) cs of
        [] \<Rightarrow> Inr \<lparr>columns = cs, rows = map (\<lambda>r. map (cell_at (columns df) r) cs) (rows df)\<rparr>
      | missing \<Rightarrow> Inl (KeyError_columns missing))"

text \<open>\<^verbatim>\<open>df[c]\<close> for one label raises \<^verbatim>\<open>KeyError\<close> when the frame has no such column.\<close>

definition require_columns :: "frame \<Rightarrow> string list \<Rightarrow> py_error + unit" where
  "require_columns df cs =
     (case filter (\<lambda>c. c \<notin> set (columns df)) cs of
        [] \<Rightarrow> Inr ()
      | c # _ \<Rightarrow> Inl (KeyError_columns [c]))"

text \<open>
  \<^verbatim>\<open>pd.DataFrame(records)\<close> for a list of dicts that all have the same keys in the same
  order, which is what \<^verbatim>\<open>to_row\<close> returns; and \<^verbatim>\<open>df.empty\<close>.
\<close>

definition DataFrame :: "(string \<times> cell) list list \<Rightarrow> frame" where
  "DataFrame recs =
     (case recs of
        [] \<Rightarrow> \<lparr>columns = [], rows = []\<rparr>
      | r # _ \<Rightarrow> \<lparr>columns = map fst r, rows = map (map snd) recs\<rparr>)"

definition is_empty :: "frame \<Rightarrow> bool" where
  "is_empty df \<longleftrightarrow> columns df = [] \<or> rows df = []"

section \<open>Remote ingestion: the response\<close>

text \<open>
  Line 38: \<^verbatim>\<open>(resp.json() or {}).get('data', {}).get('table0', []) or []\<close>. Each
  \<^verbatim>\<open>get\<close> needs a dict.
\<close>

definition extract_table :: "json \<Rightarrow> py_error + json" where
  "extract_table body =
     (case py_get (py_or body (JObj [])) ''data'' (JObj []) of
        Inl e \<Rightarrow> Inl e
      | Inr d \<Rightarrow>
          (case py_get d ''table0'' (JArr []) of
             Inl e \<Rightarrow> Inl e
           | Inr t \<Rightarrow> Inr (py_or t (JArr []))))"

text \<open>
  \<^verbatim>\<open>for x in table\<close>: a list yields its items, a dict its keys, text its characters
  (here: its bytes); a number or a boolean is not iterable.
\<close>

fun iterate :: "json \<Rightarrow> py_error + json list" where
  "iterate (JArr xs) = Inr xs"
| "iterate (JObj kv) = Inr (map (\<lambda>(k, v). JStr k) kv)"
| "iterate (JStr s) = Inr (map (\<lambda>c. JStr [c]) s)"
| "iterate JNull = Inl TypeError_not_iterable"
| "iterate (JBool b) = Inl TypeError_not_iterable"
| "iterate (JInt n) = Inl TypeError_not_iterable"
| "iterate (JFloat f) = Inl TypeError_not_iterable"

text \<open>A list comprehension whose body may raise: the first exception ends it.\<close>

fun try_map :: "('a \<Rightarrow> py_error + 'b) \<Rightarrow> 'a list \<Rightarrow> py_error + 'b list" where
  "try_map f [] = Inr []"
| "try_map f (x # xs) =
     (case f x of
        Inl e \<Rightarrow> Inl e
      | Inr y \<Rightarrow> (case try_map f xs of Inl e \<Rightarrow> Inl e | Inr ys \<Rightarrow> Inr (y # ys)))"

text \<open>Lines 34 to 53.\<close>

definition fetch_online :: "env \<Rightarrow> py_error + frame" where
  "fetch_online env =
     (case http_json env of
        Inl e \<Rightarrow> Inl e
      | Inr body \<Rightarrow>
          (case extract_table body of
             Inl e \<Rightarrow> Inl e
           | Inr table \<Rightarrow>
               (case iterate table of
                  Inl e \<Rightarrow> Inl e
                | Inr items \<Rightarrow>
                    (case try_map (to_row env) items of
                       Inl e \<Rightarrow> Inl e
                     | Inr recs \<Rightarrow>
                         (let df = DataFrame recs
                          in if is_empty df then Inl ValueError_empty_dataset else Inr df)))))"

section \<open>Local ingestion: \<^verbatim>\<open>read_local\<close>\<close>

text \<open>Lines 59 to 66 and 70: the legacy English headers with their canonical names.\<close>

definition mapper :: "(string \<times> string) list" where
  "mapper =
     [(''Rank'', col_rank),
      (''MovieName'', col_name),
      (''ReleaseDate'', col_release),
      (''TotalBoxOffice(10k RMB)'', col_box),
      (''AvgTicketPrice(RMB)'', col_price),
      (''AvgAudienceCount'', col_audience)]"

definition expected :: "string list" where
  "expected = [col_rank, col_name, col_release, col_box, col_price, col_audience]"

text \<open>Lines 68 and 69, the body of the loop, and the loop of line 67.\<close>

definition apply_alias :: "frame \<Rightarrow> string \<times> string \<Rightarrow> frame" where
  "apply_alias df = (\<lambda>(en, cn).
     if en \<in> set (columns df) \<and> cn \<notin> set (columns df)
     then set_column df cn (column df en) else df)"

definition map_headers :: "frame \<Rightarrow> py_error + frame" where
  "map_headers df = select_columns (foldl apply_alias df mapper) expected"

text \<open>Lines 55 to 71.\<close>

definition read_local :: "env \<Rightarrow> string \<Rightarrow> py_error + frame" where
  "read_local env csv_path =
     (case read_csv env csv_path of Inl e \<Rightarrow> Inl e | Inr df \<Rightarrow> map_headers df)"

text \<open>
  For the comparison of a legacy snapshot with a canonical one: the canonical name of a
  header, the same frame under canonical headers, the aliases the loop copies for a
  given header list, and the dataset that a frame with only legacy headers must give.
\<close>

definition canonical_name :: "string \<Rightarrow> string" where
  "canonical_name h = (case map_of mapper h of Some cn \<Rightarrow> cn | None \<Rightarrow> h)"

definition with_canonical_headers :: "frame \<Rightarrow> frame" where
  "with_canonical_headers df = df\<lparr>columns := map canonical_name (columns df)\<rparr>"

definition active :: "string list \<Rightarrow> (string \<times> string) list \<Rightarrow> (string \<times> string) list" where
  "active cols m = filter (\<lambda>(en, cn). en \<in> set cols \<and> cn \<notin> set cols) m"

definition legacy_result :: "frame \<Rightarrow> py_error + frame" where
  "legacy_result df =
     (case filter (\<lambda>(en, cn). en \<notin> set (columns df)) mapper of
        [] \<Rightarrow> Inr \<lparr>columns = expected,
                 rows = map (\<lambda>r. map (\<lambda>(en, cn). cell_at (columns df) r en) mapper) (rows df)\<rparr>
      | ms \<Rightarrow> Inl (KeyError_columns (map snd ms)))"

section \<open>Normalisation: \<^verbatim>\<open>preprocess\<close>\<close>

text \<open>
  Lines 77 to 81: \<^verbatim>\<open>_parse_date\<close> turns every exception of the parser into \<^verbatim>\<open>NaT\<close> and
  returns every value of the parser as it is.
\<close>

definition parse_date :: "env \<Rightarrow> cell \<Rightarrow> cell" where
  "parse_date env s = (case to_datetime env s of Inl e \<Rightarrow> NA | Inr c \<Rightarrow> c)"

text \<open>The kinds of cells that pandas tells apart when it compares or converts them.\<close>

datatype kind = Missing | Numeric | Text | Time | Container

fun kind_of :: "cell \<Rightarrow> kind" where
  "kind_of NA = Missing"
| "kind_of (Num x) = Numeric"
| "kind_of (Inf b) = Numeric"
| "kind_of (Bool b) = Numeric"
| "kind_of (Str s) = Text"
| "kind_of (TS t) = Time"
| "kind_of (Obj j) = Container"

text \<open>
  Line 83 is outside the \<^verbatim>\<open>try\<close>: \<^verbatim>\<open>pd.to_datetime\<close> on the whole column of parsed
  dates, then \<^verbatim>\<open>.dt.year\<close>. The column holds what \<^verbatim>\<open>_parse_date\<close> returned. The
  conversion raises \<^verbatim>\<open>TypeError\<close> on an object that is neither a timestamp nor
  missing, and \<^verbatim>\<open>ValueError\<close> when the timestamps do not all have the same time zone
  (two different zones, or a zone and none). Otherwise the year of a timestamp is the
  year of its calendar date, and the year of a missing date is missing.
\<close>

definition zones :: "cell list \<Rightarrow> string option list" where
  "zones cs = remdups (concat (map (\<lambda>c. case c of TS t \<Rightarrow> [zone t] | _ \<Rightarrow> []) cs))"

definition year_of :: "cell \<Rightarrow> cell" where
  "year_of c = (case c of TS t \<Rightarrow> Num (of_int (civil_year t)) | _ \<Rightarrow> NA)"

definition years_of_column :: "cell list \<Rightarrow> py_error + cell list" where
  "years_of_column cs =
     (if list_ex (\<lambda>c. kind_of c \<noteq> Missing \<and> kind_of c \<noteq> Time) cs then Inl TypeError_datetime
      else if 1 < length (zones cs) then Inl ValueError_mixed_timezones
      else Inr (map year_of cs))"

text \<open>
  Line 84, \<^verbatim>\<open>sort_values\<close> on two columns with the defaults: ascending, missing values
  last in each column, rows with equal keys in their given order. For several keys
  pandas (\<^verbatim>\<open>lexsort_indexer\<close>) turns each column into an ordered \<^verbatim>\<open>Categorical\<close>, whose
  categories are the distinct values in sorted order (\<^verbatim>\<open>factorize\<close> with
  \<^verbatim>\<open>sort=True\<close>, that is \<^verbatim>\<open>safe_sort\<close>), and sorts the rows by the category codes with
  a stable lexicographic sort, the code of a missing value being the largest. The
  categories of a column of numbers (booleans count as 0 and 1), of text or of
  timestamps are in Python's order; those of a column that mixes text with other
  values are ordered by \<^verbatim>\<open>_sort_mixed\<close>: the values that are not text in their order,
  then the text. A list or dict cannot be hashed, and a column that holds both numbers
  and timestamps, or both naive timestamps and timestamps with a zone, cannot be
  compared: \<^verbatim>\<open>sort_values\<close> then raises \<^verbatim>\<open>TypeError\<close>.

  The key of a cell is (missing, text, sign of an infinity, number, text, instant)
  under the lexicographic order.
\<close>

definition naive :: "cell \<Rightarrow> bool" where
  "naive c = (case c of TS t \<Rightarrow> zone t = None | _ \<Rightarrow> False)"

definition aware :: "cell \<Rightarrow> bool" where
  "aware c = (case c of TS t \<Rightarrow> zone t \<noteq> None | _ \<Rightarrow> False)"

definition sortable :: "cell list \<Rightarrow> bool" where
  "sortable cs =
     (let ks = map kind_of cs
      in Container \<notin> set ks \<and> \<not> (Numeric \<in> set ks \<and> Time \<in> set ks) \<and>
         \<not> (list_ex naive cs \<and> list_ex aware cs))"

type_synonym sort_key = "bool \<times> bool \<times> int \<times> real \<times> string \<times> int"

fun sort_key_of :: "cell \<Rightarrow> sort_key" where
  "sort_key_of (Num x) = (False, False, 0, x, [], 0)"
| "sort_key_of (Inf b) = (False, False, (if b then 1 else - 1), 0, [], 0)"
| "sort_key_of (Bool b) = (False, False, 0, (if b then 1 else 0), [], 0)"
| "sort_key_of (TS t) = (False, False, 0, 0, [], instant t)"
| "sort_key_of (Str s) = (False, True, 0, 0, s, 0)"
| "sort_key_of NA = (True, False, 0, 0, [], 0)"
| "sort_key_of (Obj j) = (True, False, 0, 0, [], 0)"

definition row_key :: "string list \<Rightarrow> string \<Rightarrow> string \<Rightarrow> cell list \<Rightarrow> sort_key \<times> sort_key" where
  "row_key cols c1 c2 r = (sort_key_of (cell_at cols r c1), sort_key_of (cell_at cols r c2))"

definition sort_values :: "frame \<Rightarrow> string \<Rightarrow> string \<Rightarrow> py_error + frame" where
  "sort_values df c1 c2 =
     (case require_columns df [c1, c2] of
        Inl e \<Rightarrow> Inl e
      | Inr u \<Rightarrow>
          if sortable (column df c1) \<and> sortable (column df c2)
          then Inr (df\<lparr>rows := sort_key (row_key (columns df) c1 c2) (rows df)\<rparr>)
          else Inl TypeError_sort)"

text \<open>Lines 73 to 85.\<close>

definition preprocess :: "env \<Rightarrow> frame \<Rightarrow> py_error + frame" where
  "preprocess env df =
     (case require_columns df [col_release] of
        Inl e \<Rightarrow> Inl e
      | Inr u \<Rightarrow>
          (let df1 = set_column df col_parsed (map (parse_date env) (column df col_release))
           in case years_of_column (column df1 col_parsed) of
                Inl e \<Rightarrow> Inl e
              | Inr years \<Rightarrow> sort_values (set_column df1 col_year years) col_parsed col_rank))"

text \<open>
  The order of the specification, on cells and on (release date, rank) pairs of cells.
  \<open>cell_le a b\<close>: \<open>a\<close> is not after \<open>b\<close> in ascending order with missing values last:
  numbers by value, text by Python's order on text, timestamps by time, a number or a
  timestamp before text, and everything before a missing cell. A record is not after
  another when its date is before, or the dates are equal in this order and its rank is
  not after.
\<close>

definition number_of :: "cell \<Rightarrow> (int \<times> real) option" where
  "number_of c =
     (case c of
        Num x \<Rightarrow> Some (0, x)
      | Inf b \<Rightarrow> Some (if b then 1 else - 1, 0)
      | Bool b \<Rightarrow> Some (0, if b then 1 else 0)
      | _ \<Rightarrow> None)"





definition with_dates :: "env \<Rightarrow> frame \<Rightarrow> cell list list" where
  "with_dates env df =
     map (\<lambda>r. r @ [parse_date env (cell_at (columns df) r col_release),
                  year_of (parse_date env (cell_at (columns df) r col_release))]) (rows df)"

definition one_zone :: "cell list \<Rightarrow> bool" where
  "one_zone cs \<longleftrightarrow>
     list_all (\<lambda>c. kind_of c = Missing \<or> kind_of c = Time) cs \<and> length (zones cs) \<le> 1"

definition number_or_missing :: "cell \<Rightarrow> bool" where
  "number_or_missing c \<longleftrightarrow> (case c of NA \<Rightarrow> True | Num x \<Rightarrow> True | _ \<Rightarrow> False)"
text \<open>The columns of a normalised frame: the six canonical ones, the parsed date, the year.\<close>

definition out_columns :: "string list" where
  "out_columns = expected @ [col_parsed, col_year]"

text \<open>
  The entries of the response (line 38 and the iteration of line 50), and the cells of
  the record that an entry becomes.
\<close>

definition response_entries :: "env \<Rightarrow> py_error + json list" where
  "response_entries env =
     (case http_json env of
        Inl e \<Rightarrow> Inl e
      | Inr body \<Rightarrow> (case extract_table body of Inl e \<Rightarrow> Inl e | Inr table \<Rightarrow> iterate table))"

definition entry_cells :: "env \<Rightarrow> json \<Rightarrow> cell list" where
  "entry_cells env item =
     (case item of
        JObj d \<Rightarrow> (case mapped_entry env d of Inr r \<Rightarrow> map snd r | Inl e \<Rightarrow> [])
      | _ \<Rightarrow> [])"

section \<open>Writing files\<close>

text \<open>
  The files a run has written, oldest first, and a step that may raise after writing
  some: it returns its value or its exception, with the files as they then are.
\<close>

type_synonym fs = "(string \<times> artifact) list"

type_synonym 'a io = "fs \<Rightarrow> (py_error + 'a) \<times> fs"

definition return_io :: "'a \<Rightarrow> 'a io" where
  "return_io x = (\<lambda>files. (Inr x, files))"

definition raise_io :: "py_error \<Rightarrow> 'a io" where
  "raise_io e = (\<lambda>files. (Inl e, files))"

definition then_io :: "'a io \<Rightarrow> ('a \<Rightarrow> 'b io) \<Rightarrow> 'b io" where
  "then_io m f = (\<lambda>files.
     case m files of (Inl e, files') \<Rightarrow> (Inl e, files') | (Inr x, files') \<Rightarrow> f x files')"

text \<open>One library call that writes one artifact and returns its path.\<close>

definition emit :: "env \<Rightarrow> string \<Rightarrow> artifact \<Rightarrow> string io" where
  "emit env p a = (\<lambda>files.
     case emit_error env p a of None \<Rightarrow> (Inr p, files @ [(p, a)]) | Some e \<Rightarrow> (Inl e, files))"

section \<open>The yearly aggregate\<close>

text \<open>
  Lines 101 to 103 and 130 to 132: \<^verbatim>\<open>dropna\<close> on the year, \<^verbatim>\<open>groupby\<close> on the year,
  \<^verbatim>\<open>sum\<close> of the revenue. The groups are kept in ascending order of the key, each with
  the revenue cells of its rows in row order. \<^verbatim>\<open>preprocess\<close> writes only finite numbers
  and missing values into the year column; a row whose year cell is no such number is
  dropped.
\<close>

definition year_key :: "cell \<Rightarrow> real option" where
  "year_key c = (case c of Num y \<Rightarrow> Some y | _ \<Rightarrow> None)"

fun group_insert :: "real \<Rightarrow> cell \<Rightarrow> (real \<times> cell list) list \<Rightarrow> (real \<times> cell list) list" where
  "group_insert k v [] = [(k, [v])]"
| "group_insert k v ((k', vs) # g) =
     (if k = k' then (k', vs @ [v]) # g
      else if k < k' then (k, [v]) # (k', vs) # g
      else (k', vs) # group_insert k v g)"

definition group_step ::
  "string list \<Rightarrow> (real \<times> cell list) list \<Rightarrow> cell list \<Rightarrow> (real \<times> cell list) list" where
  "group_step cols g r =
     (case year_key (cell_at cols r col_year) of
        None \<Rightarrow> g
      | Some y \<Rightarrow> group_insert y (cell_at cols r col_box) g)"

definition group_by_year :: "frame \<Rightarrow> (real \<times> cell list) list" where
  "group_by_year df = foldl (group_step (columns df)) [] (rows df)"

text \<open>
  \<^verbatim>\<open>sum\<close> over the cells of one group skips missing values; numbers add (a boolean
  counts as 0 or 1; an infinity absorbs every finite number, and the two infinities add
  to not-a-number), text concatenates, and any other mixture raises \<^verbatim>\<open>TypeError\<close>. A
  group without values sums to 0. The sum of finite numbers is their sum as reals.
\<close>

definition num_of :: "cell \<Rightarrow> real option" where
  "num_of c = (case c of Num x \<Rightarrow> Some x | Bool b \<Rightarrow> Some (if b then 1 else 0) | _ \<Rightarrow> None)"

definition num_or_zero :: "cell \<Rightarrow> real" where
  "num_or_zero c = (case num_of c of Some x \<Rightarrow> x | None \<Rightarrow> 0)"

definition text_of :: "cell \<Rightarrow> string option" where
  "text_of c = (case c of Str s \<Rightarrow> Some s | _ \<Rightarrow> None)"

definition sum_numbers :: "cell list \<Rightarrow> cell" where
  "sum_numbers ws =
     (if Inf True \<in> set ws then (if Inf False \<in> set ws then NA else Inf True)
      else if Inf False \<in> set ws then Inf False
      else Num (sum_list (map num_or_zero ws)))"

definition sum_cells :: "cell list \<Rightarrow> py_error + cell" where
  "sum_cells vs =
     (let ws = filter (\<lambda>c. c \<noteq> NA) vs
      in if list_all (\<lambda>c. kind_of c = Numeric) ws then Inr (sum_numbers ws)
         else if list_all (\<lambda>c. text_of c \<noteq> None) ws
         then Inr (Str (concat (map (\<lambda>c. case text_of c of Some s \<Rightarrow> s | None \<Rightarrow> []) ws)))
         else Inl TypeError_add)"

definition yearly_sums :: "frame \<Rightarrow> py_error + (real \<times> cell) list" where
  "yearly_sums df =
     (case require_columns df [col_year, col_box] of
        Inl e \<Rightarrow> Inl e
      | Inr u \<Rightarrow>
          try_map (\<lambda>(y, vs). case sum_cells vs of Inl e \<Rightarrow> Inl e | Inr s \<Rightarrow> Inr (y, s))
            (group_by_year df))"

text \<open>Line 103, \<^verbatim>\<open>reset_index\<close>: the aggregate as a frame of two columns.\<close>

definition yearly :: "frame \<Rightarrow> py_error + frame" where
  "yearly df =
     (case yearly_sums df of
        Inl e \<Rightarrow> Inl e
      | Inr ys \<Rightarrow> Inr \<lparr>columns = [col_year, col_box], rows = map (\<lambda>(y, s). [Num y, s]) ys\<rparr>)"

section \<open>Export: \<^verbatim>\<open>export_all\<close>\<close>

text \<open>
  The names of the two sheets of the workbook: U+6570 U+636E and
  U+5E74 U+5EA6 U+6C47 U+603B.
\<close>

definition sheet_data :: string where
  "sheet_data = [CHR 0xE6, CHR 0x95, CHR 0xB0, CHR 0xE6, CHR 0x8D, CHR 0xAE]"

definition sheet_yearly :: string where
  "sheet_yearly = [CHR 0xE5, CHR 0xB9, CHR 0xB4, CHR 0xE5, CHR 0xBA, CHR 0xA6, CHR 0xE6, CHR 0xB1,
     CHR 0x87, CHR 0xE6, CHR 0x80, CHR 0xBB]"

text \<open>
  What lines 95, 96 and 100 write for a frame: the header and the rows (without the
  index), and one object per row. How the cells are encoded as bytes is the
  serialiser's business; a cell is written as it is.
\<close>

definition to_csv :: "frame \<Rightarrow> artifact" where
  "to_csv df = CsvFile (columns df) (rows df)"

definition to_json :: "frame \<Rightarrow> artifact" where
  "to_json df = JsonFile (map (zip (columns df)) (rows df))"

definition sheet_of :: "string \<Rightarrow> frame \<Rightarrow> string \<times> string list \<times> cell list list" where
  "sheet_of name df = (name, columns df, rows df)"

definition data_path :: "string \<Rightarrow> string \<Rightarrow> string \<Rightarrow> string" where
  "data_path folder ts ext = folder @ ''/'' @ ''movie_income_'' @ ts @ ext"

text \<open>
  Lines 87 to 106. The workbook is saved when the \<^verbatim>\<open>with\<close> block is left, also when
  the aggregate raises inside it; it then holds the data sheet only.
\<close>

definition export_all :: "env \<Rightarrow> frame \<Rightarrow> string \<Rightarrow> string \<Rightarrow> (string \<times> string \<times> string) io" where
  "export_all env df folder ts =
     (let csv_path = data_path folder ts ''.csv'';
          json_path = data_path folder ts ''.json'';
          xlsx_path = data_path folder ts ''.xlsx''
      in then_io (emit env csv_path (to_csv df)) (\<lambda>p1.
         then_io (emit env json_path (to_json df)) (\<lambda>p2.
         then_io
           (case yearly df of
              Inl e \<Rightarrow>
                then_io (emit env xlsx_path (XlsxFile [sheet_of sheet_data df])) (\<lambda>p. raise_io e)
            | Inr y \<Rightarrow>
                emit env xlsx_path (XlsxFile [sheet_of sheet_data df, sheet_of sheet_yearly y]))
           (\<lambda>p3. return_io (csv_path, json_path, xlsx_path)))))"

text \<open>
  The revenue cells of the rows of one year, in row order, and the total revenue of a
  year: the sum over the records whose year is \<open>y\<close>, a missing revenue counting as 0.
\<close>

definition group_values :: "string list \<Rightarrow> cell list list \<Rightarrow> real \<Rightarrow> cell list" where
  "group_values cols rs y =
     map (\<lambda>r. cell_at cols r col_box) (filter (\<lambda>r. year_key (cell_at cols r col_year) = Some y) rs)"

definition year_total :: "frame \<Rightarrow> real \<Rightarrow> real" where
  "year_total df y =
     sum_list (map (\<lambda>r. num_or_zero (cell_at (columns df) r col_box))
       (filter (\<lambda>r. cell_at (columns df) r col_year = Num y) (rows df)))"

section \<open>Charts\<close>

text \<open>
  The file names of the five charts after the time stamp: \<^verbatim>\<open>_\<close> U+4E0A U+6620
  U+65E5 U+671F \<^verbatim>\<open> vs \<close> U+7968 U+623F \<^verbatim>\<open>.png\<close>; \<^verbatim>\<open>_\<close> U+5E74 U+5EA6 U+7968 U+623F
  U+5360 U+6BD4 \<^verbatim>\<open>.png\<close>; \<^verbatim>\<open>_top10\<close> U+5E73 U+5747 U+7968 U+4EF7 \<^verbatim>\<open>.png\<close>; \<^verbatim>\<open>_top10\<close>
  U+5E73 U+5747 U+573A U+6B21 U+89C2 U+4F17 U+6570 \<^verbatim>\<open>.png\<close>; \<^verbatim>\<open>_\<close> U+7968 U+4EF7
  \<^verbatim>\<open> vs \<close> U+7968 U+623F \<^verbatim>\<open>.png\<close>.
\<close>

definition line_suffix :: string where
  "line_suffix =
     ''_'' @ [CHR 0xE4, CHR 0xB8, CHR 0x8A, CHR 0xE6, CHR 0x98, CHR 0xA0, CHR 0xE6, CHR 0x97,
       CHR 0xA5, CHR 0xE6, CHR 0x9C, CHR 0x9F]
     @ '' vs '' @ [CHR 0xE7, CHR 0xA5, CHR 0xA8, CHR 0xE6, CHR 0x88, CHR 0xBF] @ ''.png''"

definition pie_suffix :: string where
  "pie_suffix =
     ''_'' @ [CHR 0xE5, CHR 0xB9, CHR 0xB4, CHR 0xE5, CHR 0xBA, CHR 0xA6, CHR 0xE7, CHR 0xA5,
       CHR 0xA8, CHR 0xE6, CHR 0x88, CHR 0xBF, CHR 0xE5, CHR 0x8D, CHR 0xA0, CHR 0xE6, CHR 0xAF,
       CHR 0x94]
     @ ''.png''"

definition price_suffix :: string where
  "price_suffix =
     ''_top10'' @ [CHR 0xE5, CHR 0xB9, CHR 0xB3, CHR 0xE5, CHR 0x9D, CHR 0x87, CHR 0xE7, CHR 0xA5,
       CHR 0xA8, CHR 0xE4, CHR 0xBB, CHR 0xB7]
     @ ''.png''"

definition audience_suffix :: string where
  "audience_suffix =
     ''_top10'' @ [CHR 0xE5, CHR 0xB9, CHR 0xB3, CHR 0xE5, CHR 0x9D, CHR 0x87, CHR 0xE5, CHR 0x9C,
       CHR 0xBA, CHR 0xE6, CHR 0xAC, CHR 0xA1, CHR 0xE8, CHR 0xA7, CHR 0x82, CHR 0xE4, CHR 0xBC,
       CHR 0x97, CHR 0xE6, CHR 0x95, CHR 0xB0]
     @ ''.png''"

definition scatter_suffix :: string where
  "scatter_suffix =
     ''_'' @ [CHR 0xE7, CHR 0xA5, CHR 0xA8, CHR 0xE4, CHR 0xBB, CHR 0xB7]
     @ '' vs '' @ [CHR 0xE7, CHR 0xA5, CHR 0xA8, CHR 0xE6, CHR 0x88, CHR 0xBF] @ ''.png''"

text \<open>
  Lines 109 to 125. The points are the (date, revenue) pairs in row order; a point is
  annotated with the title cell when neither coordinate is missing. The label drawn is
  \<^verbatim>\<open>str\<close> of the title cell; the plot keeps the cell. The function has no check of its
  own: whatever the plotting library does with the series is \<open>emit_error\<close>.
\<close>

definition chart_line_release_vs_boxoffice :: "env \<Rightarrow> frame \<Rightarrow> string \<Rightarrow> string \<Rightarrow> string io" where
  "chart_line_release_vs_boxoffice env df folder ts =
     (case require_columns df [col_parsed, col_box, col_name] of
        Inl e \<Rightarrow> raise_io e
      | Inr u \<Rightarrow>
          (let x = column df col_parsed;
               y = column df col_box;
               notes = map (\<lambda>(xi, yi, name). (name, xi, yi))
                 (filter (\<lambda>(xi, yi, name). xi \<noteq> NA \<and> yi \<noteq> NA) (zip x (zip y (column df col_name))))
           in emit env (data_path folder ts line_suffix) (PngFile (LinePlot (zip x y) notes))))"

text \<open>
  Lines 127 to 140. \<^verbatim>\<open>int(x)\<close> truncates towards zero; the label drawn is \<^verbatim>\<open>str\<close> of
  that integer.
\<close>

definition py_int :: "real \<Rightarrow> int" where
  "py_int x = (if x < 0 then - \<lfloor>- x\<rfloor> else \<lfloor>x\<rfloor>)"

definition chart_pie_share_by_year :: "env \<Rightarrow> frame \<Rightarrow> string \<Rightarrow> string \<Rightarrow> string io" where
  "chart_pie_share_by_year env df folder ts =
     (case yearly_sums df of
        Inl e \<Rightarrow> raise_io e
      | Inr share \<Rightarrow>
          emit env (data_path folder ts pie_suffix)
            (PngFile (PiePlot (map snd share) (map (\<lambda>(y, s). py_int y) share))))"

text \<open>
  \<^verbatim>\<open>df.nlargest(n, c)\<close> with the default \<^verbatim>\<open>keep='first'\<close>: the \<open>n\<close> rows with the
  largest values in descending order, equal values in row order, missing values last.
  pandas raises \<^verbatim>\<open>TypeError\<close> unless the column has a numeric dtype. It keeps one dtype
  per column; in the frames of this program (built from floats by \<^verbatim>\<open>fetch_online\<close>, or
  read by \<^verbatim>\<open>pd.read_csv\<close>) a column is numeric exactly when it has at least one row
  and every cell is a float (finite, infinite or missing), or every cell is a boolean:
  \<^verbatim>\<open>pd.read_csv\<close> gives a column without rows the dtype \<^verbatim>\<open>object\<close>, and so does a
  column that mixes booleans with other values.
\<close>

definition is_float :: "cell \<Rightarrow> bool" where
  "is_float c \<longleftrightarrow> (case c of NA \<Rightarrow> True | Num x \<Rightarrow> True | Inf b \<Rightarrow> True | _ \<Rightarrow> False)"

definition is_bool :: "cell \<Rightarrow> bool" where
  "is_bool c \<longleftrightarrow> (case c of Bool b \<Rightarrow> True | _ \<Rightarrow> False)"

definition numeric_dtype :: "cell list \<Rightarrow> bool" where
  "numeric_dtype cs \<longleftrightarrow> cs \<noteq> [] \<and> (list_all is_float cs \<or> list_all is_bool cs)"

definition largest_key :: "cell \<Rightarrow> bool \<times> int \<times> real" where
  "largest_key c =
     (case number_of c of Some (sign, x) \<Rightarrow> (False, - sign, - x) | None \<Rightarrow> (True, 0, 0))"

definition nlargest :: "nat \<Rightarrow> string \<Rightarrow> frame \<Rightarrow> py_error + frame" where
  "nlargest n c df =
     (case require_columns df [c] of
        Inl e \<Rightarrow> Inl e
      | Inr u \<Rightarrow>
          if numeric_dtype (column df c)
          then Inr (df\<lparr>rows := take n (sort_key (\<lambda>r. largest_key (cell_at (columns df) r c)) (rows df))\<rparr>)
          else Inl (TypeError_dtype c))"

text \<open>Lines 142 to 154 and 156 to 168: the bars are (title, value) in that order.\<close>

definition chart_bar_top10 :: "env \<Rightarrow> frame \<Rightarrow> string \<Rightarrow> string \<Rightarrow> string io" where
  "chart_bar_top10 env df c p =
     (case nlargest 10 c df of
        Inl e \<Rightarrow> raise_io e
      | Inr largest \<Rightarrow>
          (case select_columns largest [col_name, c] of
             Inl e \<Rightarrow> raise_io e
           | Inr t \<Rightarrow> emit env p (PngFile (BarPlot (zip (column t col_name) (column t c))))))"

definition chart_bar_top10_by_price :: "env \<Rightarrow> frame \<Rightarrow> string \<Rightarrow> string \<Rightarrow> string io" where
  "chart_bar_top10_by_price env df folder ts =
     chart_bar_top10 env df col_price (data_path folder ts price_suffix)"

definition chart_bar_top10_by_audience :: "env \<Rightarrow> frame \<Rightarrow> string \<Rightarrow> string \<Rightarrow> string io" where
  "chart_bar_top10_by_audience env df folder ts =
     chart_bar_top10 env df col_audience (data_path folder ts audience_suffix)"

text \<open>
  Lines 170 to 188. \<^verbatim>\<open>drop_duplicates\<close> keeps the first row of each title (missing
  titles count as equal) and raises \<^verbatim>\<open>TypeError\<close> on a title that is a list or dict.
\<close>

fun drop_duplicates :: "('a \<Rightarrow> 'b) \<Rightarrow> 'b list \<Rightarrow> 'a list \<Rightarrow> 'a list" where
  "drop_duplicates f seen [] = []"
| "drop_duplicates f seen (x # xs) =
     (if f x \<in> set seen then drop_duplicates f seen xs
      else x # drop_duplicates f (f x # seen) xs)"

definition chart_scatter_price_vs_boxoffice :: "env \<Rightarrow> frame \<Rightarrow> string \<Rightarrow> string \<Rightarrow> string io" where
  "chart_scatter_price_vs_boxoffice env df folder ts =
     (case require_columns df [col_price, col_box] of
        Inl e \<Rightarrow> raise_io e
      | Inr u \<Rightarrow>
          (case nlargest 5 col_box df of
             Inl e \<Rightarrow> raise_io e
           | Inr top_box \<Rightarrow>
               (case nlargest 5 col_price df of
                  Inl e \<Rightarrow> raise_io e
                | Inr top_price \<Rightarrow>
                    (case require_columns df [col_name] of
                       Inl e \<Rightarrow> raise_io e
                     | Inr u \<Rightarrow>
                         (let cols = columns df;
                              both = rows top_box @ rows top_price
                          in if list_ex (\<lambda>r. kind_of (cell_at cols r col_name) = Container) both
                             then raise_io TypeError_unhashable
                             else
                               (let notable = drop_duplicates (\<lambda>r. cell_at cols r col_name) [] both;
                                    notes = map (\<lambda>r. (cell_at cols r col_name, cell_at cols r col_price,
                                      cell_at cols r col_box)) notable
                                in emit env (data_path folder ts scatter_suffix)
                                     (PngFile (ScatterPlot (zip (column df col_price) (column df col_box))
                                        notes))))))))"


section \<open>The entry point: \<^verbatim>\<open>main\<close>\<close>

text \<open>
  How a run ends: the guard of lines 197 to 200 caught an exception of the loading
  step, printed it and returned; an exception left \<^verbatim>\<open>main\<close>; or the run printed the
  paths of the three data files and of the five charts and returned.
\<close>

datatype outcome =
    Aborted py_error
  | Crashed py_error
  | Completed "string \<times> string \<times> string" "string list"

text \<open>Line 193: \<^verbatim>\<open>local_csv and os.path.exists(local_csv)\<close>; lines 193 to 196.\<close>

definition use_local :: "env \<Rightarrow> string option \<Rightarrow> bool" where
  "use_local env local_csv =
     (case local_csv of None \<Rightarrow> False | Some p \<Rightarrow> p \<noteq> [] \<and> path_exists env p)"

definition load_data :: "env \<Rightarrow> string option \<Rightarrow> py_error + frame" where
  "load_data env local_csv =
     (case local_csv of
        None \<Rightarrow> fetch_online env
      | Some p \<Rightarrow> if use_local env local_csv then read_local env p else fetch_online env)"

text \<open>Lines 214 to 220: the five charts, in this order.\<close>

definition render_all :: "env \<Rightarrow> frame \<Rightarrow> string \<Rightarrow> string \<Rightarrow> string list io" where
  "render_all env df folder ts =
     then_io (chart_line_release_vs_boxoffice env df folder ts) (\<lambda>c1.
     then_io (chart_pie_share_by_year env df folder ts) (\<lambda>c2.
     then_io (chart_bar_top10_by_price env df folder ts) (\<lambda>c3.
     then_io (chart_bar_top10_by_audience env df folder ts) (\<lambda>c4.
     then_io (chart_scatter_price_vs_boxoffice env df folder ts) (\<lambda>c5.
     return_io [c1, c2, c3, c4, c5])))))"

text \<open>
  \<^verbatim>\<open>print\<close> on each of a list of lines until one raises; the lines of lines 222 to 227
  (line 106 builds the dict with the keys \<^verbatim>\<open>csv\<close>, \<^verbatim>\<open>json\<close>, \<^verbatim>\<open>xlsx\<close> in this order).
\<close>

fun print_all :: "env \<Rightarrow> message list \<Rightarrow> py_error option" where
  "print_all env [] = None"
| "print_all env (m # ms) =
     (case print_error env m of Some e \<Rightarrow> Some e | None \<Rightarrow> print_all env ms)"

definition report :: "string \<times> string \<times> string \<Rightarrow> string list \<Rightarrow> message list" where
  "report out charts =
     (case out of (csv_path, json_path, xlsx_path) \<Rightarrow>
        [ExportHeading, Exported ''CSV'' csv_path, Exported ''JSON'' json_path,
         Exported ''XLSX'' xlsx_path, ChartHeading] @ map ChartSaved charts)"

text \<open>
  Lines 190 to 227. The result is how the run ended and the files it has written.
  Only the loading step is inside the \<^verbatim>\<open>try\<close>; nothing removes a file once written.
  An exception of a \<^verbatim>\<open>print\<close> leaves \<^verbatim>\<open>main\<close> like any other: in the handler of line
  197 before anything is written, in lines 222 to 227 after everything is.
\<close>

definition main :: "env \<Rightarrow> string option \<Rightarrow> outcome \<times> fs" where
  "main env local_csv =
     (case load_data env local_csv of
        Inl e \<Rightarrow>
          (case print_all env [LoadFailed e, Hint] of
             Some e' \<Rightarrow> (Crashed e', [])
           | None \<Rightarrow> (Aborted e, []))
      | Inr df0 \<Rightarrow>
          (case preprocess env df0 of
             Inl e \<Rightarrow> (Crashed e, [])
           | Inr df \<Rightarrow>
               (let ts = now env;
                    folder = ''movie_income_'' @ ts
                in case emit_error env folder Directory of
                     Some e \<Rightarrow> (Crashed e, [])
                   | None \<Rightarrow>
                       (case then_io (export_all env df folder ts) (\<lambda>out.
                               then_io (render_all env df folder ts) (\<lambda>charts.
                               return_io (out, charts))) [] of
                          (Inl e, files) \<Rightarrow> (Crashed e, files)
                        | (Inr (out, charts), files) \<Rightarrow>
                            (case print_all env (report out charts) of
                               Some e \<Rightarrow> (Crashed e, files)
                             | None \<Rightarrow> (Completed out charts, files))))))"

text \<open>The paths of the eight artifacts of a run, in the order in which they are written.\<close>

definition artifact_paths :: "env \<Rightarrow> string list" where
  "artifact_paths env =
     map (data_path (''movie_income_'' @ now env) (now env))
       [''.csv'', ''.json'', ''.xlsx'', line_suffix, pie_suffix, price_suffix, audience_suffix,
        scatter_suffix]"

text \<open>
  \<open>writes strict ps m\<close>: the step \<open>m\<close> only appends files; when it returns it has
  written exactly the paths \<open>ps\<close>, in this order; when it raises it has written a prefix
  of them, and with \<open>strict\<close> not all of them.
\<close>

definition writes :: "bool \<Rightarrow> string list \<Rightarrow> 'a io \<Rightarrow> bool" where
  "writes strict ps m \<longleftrightarrow>
     (\<forall>files. \<exists>new. snd (m files) = files @ new \<and>
        (case fst (m files) of
           Inr x \<Rightarrow> map fst new = ps
         | Inl e \<Rightarrow> prefix (map fst new) ps \<and> (strict \<longrightarrow> map fst new \<noteq> ps)))"

section \<open>A concrete environment\<close>

text \<open>
  An environment to run the model on concrete inputs. \<open>decimal_of_str\<close> reads plain
  decimal literals (a sign, digits, one optional point) and the text \<^verbatim>\<open>nan\<close>, and
  rejects all other text; \<open>iso_to_datetime\<close> reads a missing value, a timestamp, a date
  written \<^verbatim>\<open>YYYY-MM-DD\<close> (a naive timestamp at midnight) and such a date followed by
  \<^verbatim>\<open>T00:00:00+08:00\<close> (midnight in the zone eight hours ahead of UTC), and raises on
  everything else. They stand for \<^verbatim>\<open>float\<close> and \<^verbatim>\<open>pd.to_datetime\<close> on the inputs used
  below, not on all inputs. No integer above \<open>2 ^ 53\<close> is converted below, and the
  console accepts every line.
\<close>

definition digit_of :: "char \<Rightarrow> nat option" where
  "digit_of c =
     (let n = (of_char c :: nat) in if 48 \<le> n \<and> n \<le> 57 then Some (n - 48) else None)"

fun digits_val :: "nat \<Rightarrow> string \<Rightarrow> nat option" where
  "digits_val acc [] = Some acc"
| "digits_val acc (c # cs) =
     (case digit_of c of None \<Rightarrow> None | Some d \<Rightarrow> digits_val (10 * acc + d) cs)"

definition unsigned_decimal :: "string \<Rightarrow> real option" where
  "unsigned_decimal s =
     (let ip = takeWhile (\<lambda>c. c \<noteq> CHR ''.'') s;
          fp = drop (Suc (length ip)) s
      in if ip = [] \<and> fp = [] then None
         else (case (digits_val 0 ip, digits_val 0 fp) of
                 (Some a, Some b) \<Rightarrow> Some (real a + real b / 10 ^ length fp)
               | _ \<Rightarrow> None))"

definition signed_decimal :: "string \<Rightarrow> real option" where
  "signed_decimal s =
     (case s of
        [] \<Rightarrow> None
      | c # cs \<Rightarrow>
          if c = CHR ''-'' then map_option uminus (unsigned_decimal cs)
          else if c = CHR ''+'' then unsigned_decimal cs
          else unsigned_decimal s)"

definition decimal_of_str :: "string \<Rightarrow> pyfloat option" where
  "decimal_of_str s = (if s = ''nan'' then Some NaN else map_option Fin (signed_decimal s))"

definition days_in_month :: "int \<Rightarrow> nat \<Rightarrow> nat" where
  "days_in_month y m =
     (if m = 2 then (if (y mod 4 = 0 \<and> y mod 100 \<noteq> 0) \<or> y mod 400 = 0 then 29 else 28)
      else if m = 4 \<or> m = 6 \<or> m = 9 \<or> m = 11 then 30 else 31)"

definition iso_date :: "string \<Rightarrow> (int \<times> nat \<times> nat) option" where
  "iso_date s =
     (if length s = 10 \<and> s ! 4 = CHR ''-'' \<and> s ! 7 = CHR ''-'' then
        (case (digits_val 0 (take 4 s), digits_val 0 (take 2 (drop 5 s)), digits_val 0 (drop 8 s)) of
           (Some y, Some m, Some d) \<Rightarrow>
             if 1 \<le> m \<and> m \<le> 12 \<and> 1 \<le> d \<and> d \<le> days_in_month (int y) m
             then Some (int y, m, d) else None
         | _ \<Rightarrow> None)
      else None)"

text \<open>
  The number of days from 1970-01-01 to a date of the Gregorian calendar, and the two
  timestamps at midnight of a date: the naive one, and the one in the zone eight hours
  ahead of UTC.
\<close>

definition days_from_civil :: "int \<Rightarrow> nat \<Rightarrow> nat \<Rightarrow> int" where
  "days_from_civil y m d =
     (let y' = (if m \<le> 2 then y - 1 else y);
          era = y' div 400;
          yoe = y' - era * 400;
          doy = (153 * (if 2 < m then int m - 3 else int m + 9) + 2) div 5 + int d - 1;
          doe = yoe * 365 + yoe div 4 - yoe div 100 + doy
      in era * 146097 + doe - 719468)"

definition midnight :: "int \<Rightarrow> nat \<Rightarrow> nat \<Rightarrow> timestamp" where
  "midnight y m d = Timestamp (days_from_civil y m d * 86400000000000) y None"

definition midnight_east8 :: "int \<Rightarrow> nat \<Rightarrow> nat \<Rightarrow> timestamp" where
  "midnight_east8 y m d =
     Timestamp (days_from_civil y m d * 86400000000000 - 28800000000000) y (Some ''UTC+08:00'')"

definition iso_stamp :: "string \<Rightarrow> timestamp option" where
  "iso_stamp s =
     (case iso_date (take 10 s) of
        None \<Rightarrow> None
      | Some (y, m, d) \<Rightarrow>
          if drop 10 s = [] then Some (midnight y m d)
          else if drop 10 s = ''T00:00:00+08:00'' then Some (midnight_east8 y m d)
          else None)"

definition iso_to_datetime :: "cell \<Rightarrow> py_error + cell" where
  "iso_to_datetime c =
     (case c of
        NA \<Rightarrow> Inr NA
      | TS t \<Rightarrow> Inr (TS t)
      | Str s \<Rightarrow> (case iso_stamp s of None \<Rightarrow> Inl ValueError_date | Some t \<Rightarrow> Inr (TS t))
      | _ \<Rightarrow> Inl ValueError_date)"

text \<open>The two entries of the end-to-end example: A of 2023-01-10 and B of 2022-12-25.\<close>

definition entry_A :: json where
  "entry_A = JObj [(''Irank'', JInt 1), (''MovieName'', JStr ''A''),
     (''ReleaseTime'', JStr ''2023-01-10''), (''BoxOffice'', JInt 1000),
     (''AvgBoxOffice'', JFloat (Fin 45.5)), (''AvgAudienceCount'', JInt 120)]"

definition entry_B :: json where
  "entry_B = JObj [(''Irank'', JInt 2), (''MovieName'', JStr ''B''),
     (''ReleaseTime'', JStr ''2022-12-25''), (''BoxOffice'', JInt 800),
     (''AvgBoxOffice'', JInt 50), (''AvgAudienceCount'', JInt 90)]"

definition sample_body :: json where
  "sample_body = JObj [(''data'', JObj [(''table0'', JArr [entry_A, entry_B])])]"

definition sample_env :: env where
  "sample_env =
     \<lparr> float_of_str = decimal_of_str,
       float_of_int = (\<lambda>n. None),
       store_int = (\<lambda>c n. Num (of_int n)),
       to_datetime = iso_to_datetime,
       http_json = Inr sample_body,
       path_exists = (\<lambda>p. False),
       read_csv = (\<lambda>p. Inl FileNotFoundError),
       now = ''20240101_120000'',
       emit_error = (\<lambda>p a. None),
       print_error = (\<lambda>m. None) \<rparr>"


text \<open>The same environment when the request fails.\<close>

definition offline_env :: env where
  "offline_env = sample_env \<lparr>http_json := Inl FetchError\<rparr>"

text \<open>
  The same environment with a console whose encoding lacks the check mark of lines 222
  and 225 (a GBK console, say): \<^verbatim>\<open>print\<close> raises on the two headings.
\<close>

definition muted_env :: env where
  "muted_env = sample_env
     \<lparr>print_error :=
        (\<lambda>m. if m = ExportHeading \<or> m = ChartHeading then Some UnicodeEncodeError else None)\<rparr>"
text \<open>
  Local snapshots: one with only legacy headers, and one that has both the legacy
  revenue column and the canonical one, with different values.
\<close>

definition legacy_frame :: frame where
  "legacy_frame =
     \<lparr>columns = [''Rank'', ''MovieName'', ''ReleaseDate'', ''TotalBoxOffice(10k RMB)'',
                 ''AvgTicketPrice(RMB)'', ''AvgAudienceCount''],
      rows = [[Num 1, Str ''A'', Str ''2023-01-10'', Num 1000, Num 45.5, Num 120],
              [Num 2, Str ''B'', Str ''2022-12-25'', Num 800, Num 50, Num 90]]\<rparr>"

definition both_frame :: frame where
  "both_frame =
     \<lparr>columns = [''Rank'', ''MovieName'', ''ReleaseDate'', ''TotalBoxOffice(10k RMB)'', col_box,
                 ''AvgTicketPrice(RMB)'', ''AvgAudienceCount''],
      rows = [[Num 1, Str ''A'', Str ''2023-01-10'', Num 111, Num 1000, Num 45.5, Num 120]]\<rparr>"

definition local_env :: env where
  "local_env = sample_env
     \<lparr>path_exists := (\<lambda>p. p = ''legacy.csv'' \<or> p = ''canonical.csv'' \<or> p = ''both.csv''),
      read_csv := (\<lambda>p.
        if p = ''legacy.csv'' then Inr legacy_frame
        else if p = ''canonical.csv'' then Inr (with_canonical_headers legacy_frame)
        else if p = ''both.csv'' then Inr both_frame
        else Inl FileNotFoundError)\<rparr>"



text \<open>
  The dataset of the end-to-end example before and after normalisation; a response
  whose only entry has neither rank nor title and the revenue \<^verbatim>\<open>"nan"\<close>; and a local
  snapshot with canonical headers whose only row is empty but for the release date.
\<close>

definition two_raw :: frame where
  "two_raw =
     \<lparr>columns = expected,
      rows = [[Num 1, Str ''A'', Str ''2023-01-10'', Num 1000, Num 45.5, Num 120],
              [Num 2, Str ''B'', Str ''2022-12-25'', Num 800, Num 50, Num 90]]\<rparr>"

definition two_sorted :: frame where
  "two_sorted =
     \<lparr>columns = expected @ [col_parsed, col_year],
      rows = [[Num 2, Str ''B'', Str ''2022-12-25'', Num 800, Num 50, Num 90,
                 TS (midnight 2022 12 25), Num 2022],
              [Num 1, Str ''A'', Str ''2023-01-10'', Num 1000, Num 45.5, Num 120,
                 TS (midnight 2023 1 10), Num 2023]]\<rparr>"

definition nameless_env :: env where
  "nameless_env = sample_env
     \<lparr>http_json := Inr (JObj [(''data'', JObj [(''table0'',
        JArr [JObj [(''ReleaseTime'', JStr ''2023-01-10''), (''BoxOffice'', JStr ''nan'')]])])])\<rparr>"

definition nameless_raw :: frame where
  "nameless_raw =
     \<lparr>columns = expected, rows = [[NA, NA, Str ''2023-01-10'', NA, Num 0, Num 0]]\<rparr>"

definition nameless_sorted :: frame where
  "nameless_sorted =
     \<lparr>columns = expected @ [col_parsed, col_year],
      rows = [[NA, NA, Str ''2023-01-10'', NA, Num 0, Num 0, TS (midnight 2023 1 10), Num 2023]]\<rparr>"


definition gaps_raw :: frame where
  "gaps_raw = \<lparr>columns = expected, rows = [[NA, NA, Str ''2023-01-10'', NA, NA, NA]]\<rparr>"

definition gaps_sorted :: frame where
  "gaps_sorted =
     \<lparr>columns = expected @ [col_parsed, col_year],
      rows = [[NA, NA, Str ''2023-01-10'', NA, NA, NA, TS (midnight 2023 1 10), Num 2023]]\<rparr>"

definition gaps_env :: env where
  "gaps_env = sample_env
     \<lparr>path_exists := (\<lambda>p. p = ''gaps.csv''),
      read_csv := (\<lambda>p. if p = ''gaps.csv'' then Inr gaps_raw else Inl FileNotFoundError)\<rparr>"
text \<open>
  A local snapshot with canonical headers whose ticket-price column holds text:
  \<^verbatim>\<open>pd.read_csv\<close> reads such a column as text in every row.
\<close>

definition text_price_frame :: frame where
  "text_price_frame =
     \<lparr>columns = expected,
      rows = [[Num 1, Str ''A'', Str ''2023-01-10'', Num 1000, Str ''unknown'', Num 120],
              [Num 2, Str ''B'', Str ''2022-12-25'', Num 800, Str ''50'', Num 90]]\<rparr>"

definition text_price_sorted :: frame where
  "text_price_sorted =
     \<lparr>columns = expected @ [col_parsed, col_year],
      rows = [[Num 2, Str ''B'', Str ''2022-12-25'', Num 800, Str ''50'', Num 90,
                 TS (midnight 2022 12 25), Num 2022],
              [Num 1, Str ''A'', Str ''2023-01-10'', Num 1000, Str ''unknown'', Num 120,
                 TS (midnight 2023 1 10), Num 2023]]\<rparr>"

definition snapshot_env :: env where
  "snapshot_env = sample_env
     \<lparr>path_exists := (\<lambda>p. p = ''snapshot.csv''),
      read_csv := (\<lambda>p. if p = ''snapshot.csv'' then Inr text_price_frame else Inl FileNotFoundError)\<rparr>"


text \<open>
  A local snapshot with canonical headers whose revenue column holds text (a revenue
  written with a thousands separator makes \<^verbatim>\<open>pd.read_csv\<close> read the column as text).
\<close>

definition text_box_raw :: frame where
  "text_box_raw =
     \<lparr>columns = expected,
      rows = [[Num 1, Str ''A'', Str ''2023-01-10'', Str ''1,000'', Num 45.5, Num 120],
              [Num 2, Str ''B'', Str ''2023-02-01'', Str ''800'', Num 50, Num 90]]\<rparr>"

definition text_box_sorted :: frame where
  "text_box_sorted =
     \<lparr>columns = expected @ [col_parsed, col_year],
      rows = [[Num 1, Str ''A'', Str ''2023-01-10'', Str ''1,000'', Num 45.5, Num 120,
                 TS (midnight 2023 1 10), Num 2023],
              [Num 2, Str ''B'', Str ''2023-02-01'', Str ''800'', Num 50, Num 90,
                 TS (midnight 2023 2 1), Num 2023]]\<rparr>"

definition text_box_env :: env where
  "text_box_env = sample_env
     \<lparr>path_exists := (\<lambda>p. p = ''text.csv''),
      read_csv := (\<lambda>p. if p = ''text.csv'' then Inr text_box_raw else Inl FileNotFoundError)\<rparr>"





text \<open>A local snapshot that has the canonical header row and no records.\<close>

definition header_only_env :: env where
  "header_only_env = sample_env
     \<lparr>path_exists := (\<lambda>p. p = ''empty.csv''),
      read_csv := (\<lambda>p. if p = ''empty.csv'' then Inr \<lparr>columns = expected, rows = []\<rparr>
                        else Inl FileNotFoundError)\<rparr>"
section \<open>Properties of remote ingestion\<close>

lemmas col_defs =
  col_rank_def col_name_def col_release_def col_box_def col_price_def col_audience_def
  col_parsed_def col_year_def

lemma sample_env_simps:
  "float_of_str sample_env = decimal_of_str"
  "float_of_int sample_env = (\<lambda>n. None)"
  "store_int sample_env = (\<lambda>c n. Num (of_int n))"
  "to_datetime sample_env = iso_to_datetime"
  "http_json sample_env = Inr sample_body"
  "path_exists sample_env = (\<lambda>p. False)"
  "read_csv sample_env = (\<lambda>p. Inl FileNotFoundError)"
  "now sample_env = ''20240101_120000''"
  "emit_error sample_env = (\<lambda>p a. None)"
  "print_error sample_env = (\<lambda>m. None)"
  by (simp_all add: sample_env_def)

lemma col_distinct:
  "distinct [col_rank, col_name, col_release, col_box, col_price, col_audience, col_parsed, col_year]"
  by (simp add: col_defs)

lemma int_to_float_zero: "int_to_float env 0 = Inr (Fin 0)"
  by (simp add: int_to_float_def)

lemma num_field_float: "num_field env d k = field_float env (map_of d k)"
proof (cases "map_of d k")
  case None
  then show ?thesis
    by (simp add: num_field_def field_float_def dict_get_def py_or_def int_to_float_zero)
next
  case (Some v)
  then show ?thesis
    by (cases v)
      (simp_all add: num_field_def field_float_def dict_get_def py_or_def int_to_float_zero)
qed

lemma dict_get_cell: "cell_of_json env c (dict_get d k JNull) = source_cell env c d k"
  by (simp add: dict_get_def source_cell_def split: option.splits)

lemma to_row_mapped: "to_row env (JObj d) = mapped_entry env d"
  unfolding to_row_def mapped_entry_def num_field_float dict_get_cell by simp

lemma mapped_entry_cells:
  assumes "mapped_entry env d = Inr r"
  shows "\<exists>box price aud.
     field_float env (map_of d ''BoxOffice'') = Inr box \<and>
     field_float env (map_of d ''AvgBoxOffice'') = Inr price \<and>
     field_float env (map_of d ''AvgAudienceCount'') = Inr aud \<and>
     r = [(col_rank, source_cell env col_rank d ''Irank''),
          (col_name, source_cell env col_name d ''MovieName''),
          (col_release, source_cell env col_release d ''ReleaseTime''), (col_box, cell_of_float box),
          (col_price, cell_of_float price), (col_audience, cell_of_float aud)]"
  using assms by (auto simp: mapped_entry_def split: sum.splits)

lemma mapped_entry_fields:
  assumes "mapped_entry env d = Inr r" and "(src, dst) \<in> set numeric_fields"
  shows "\<exists>f. field_float env (map_of d src) = Inr f \<and> map_of r dst = Some (cell_of_float f)"
proof -
  from mapped_entry_cells [OF assms(1)] obtain box price aud where
    b: "field_float env (map_of d ''BoxOffice'') = Inr box" and
    p: "field_float env (map_of d ''AvgBoxOffice'') = Inr price" and
    a: "field_float env (map_of d ''AvgAudienceCount'') = Inr aud" and
    r: "r = [(col_rank, source_cell env col_rank d ''Irank''),
          (col_name, source_cell env col_name d ''MovieName''),
          (col_release, source_cell env col_release d ''ReleaseTime''), (col_box, cell_of_float box),
          (col_price, cell_of_float price), (col_audience, cell_of_float aud)]"
    by blast
  have ne: "col_box \<noteq> col_rank" "col_box \<noteq> col_name" "col_box \<noteq> col_release"
    "col_price \<noteq> col_rank" "col_price \<noteq> col_name" "col_price \<noteq> col_release"
    "col_price \<noteq> col_box" "col_audience \<noteq> col_rank" "col_audience \<noteq> col_name"
    "col_audience \<noteq> col_release" "col_audience \<noteq> col_box" "col_audience \<noteq> col_price"
    using col_distinct by auto
  from assms(2) consider "src = ''BoxOffice'' \<and> dst = col_box"
    | "src = ''AvgBoxOffice'' \<and> dst = col_price"
    | "src = ''AvgAudienceCount'' \<and> dst = col_audience"
    by (auto simp: numeric_fields_def)
  then show ?thesis
  proof cases
    case 1
    then show ?thesis using b by (simp add: r ne)
  next
    case 2
    then show ?thesis using p by (simp add: r ne)
  next
    case 3
    then show ?thesis using a by (simp add: r ne)
  qed
qed

lemma mapped_entry_raises:
  "isl (mapped_entry env d) \<longleftrightarrow>
     (\<exists>(src, dst) \<in> set numeric_fields. isl (field_float env (map_of d src)))"
  by (simp add: mapped_entry_def numeric_fields_def split: sum.splits)

lemma to_row_not_object:
  assumes "\<And>d. item \<noteq> JObj d"
  shows "to_row env item = Inl AttributeError_get"
proof (cases item)
  case (JObj d)
  with assms show ?thesis by blast
qed (simp_all add: to_row_def)

text \<open>
  Claim C1, as the code has it. An entry that is no JSON object raises
  \<^verbatim>\<open>AttributeError\<close>. For an entry that is a JSON object, \<^verbatim>\<open>to_row\<close> is
  \<open>mapped_entry\<close>: rank, title and release text are copied, and each of the three
  numeric fields is made a float by \<open>field_float\<close>, that is 0.0 when the field is
  absent, null or otherwise falsy, the float of a number (rounded, or
  \<^verbatim>\<open>OverflowError\<close>, for an integer beyond \<open>2 ^ 53\<close>; not-a-number, stored as a missing
  cell, and the infinities pass), the float that non-empty text denotes or
  \<^verbatim>\<open>ValueError\<close> when \<^verbatim>\<open>float\<close> rejects it, and \<^verbatim>\<open>TypeError\<close> for a non-empty list or
  object. So \<^verbatim>\<open>to_row\<close> raises exactly when one of the three fields raises, with the
  exception of the first field that does, and when it returns each numeric column holds
  the float of its field.
\<close>

theorem to_row_numeric_fields:
  "to_row env (JObj d) = mapped_entry env d
   \<and> (\<forall>item. (\<forall>d. item \<noteq> JObj d) \<longrightarrow> to_row env item = Inl AttributeError_get)
   \<and> (isl (to_row env (JObj d)) \<longleftrightarrow>
        (\<exists>(src, dst) \<in> set numeric_fields. isl (field_float env (map_of d src))))
   \<and> (\<forall>r. to_row env (JObj d) = Inr r \<longrightarrow>
         (\<forall>(src, dst) \<in> set numeric_fields.
            \<exists>f. field_float env (map_of d src) = Inr f \<and> map_of r dst = Some (cell_of_float f)))"
  using mapped_entry_raises [of env d] mapped_entry_fields [of env d] to_row_not_object [of _ env]
  by (simp add: to_row_mapped split_beta)

lemma decimal_samples:
  "decimal_of_str ''45.5'' = Some (Fin 45.5)"
  "decimal_of_str ''abc'' = None"
  "decimal_of_str ''nan'' = Some NaN"
  by (simp_all add: decimal_of_str_def signed_decimal_def unsigned_decimal_def digit_of_def)

theorem to_row_numeric_fields_witness:
  "\<not> isl (to_row sample_env (JObj [(''BoxOffice'', JStr ''45.5''), (''AvgBoxOffice'', JNull)]))
   \<and> (\<exists>r. to_row sample_env (JObj [(''BoxOffice'', JStr ''45.5''), (''AvgBoxOffice'', JNull)]) = Inr r
        \<and> map_of r col_box = Some (Num 45.5)
        \<and> map_of r col_price = Some (Num 0)
        \<and> map_of r col_audience = Some (Num 0))"
proof -
  let ?d = "[(''BoxOffice'', JStr ''45.5''), (''AvgBoxOffice'', JNull)]"
  note inst = to_row_numeric_fields [of sample_env ?d, THEN conjunct2, THEN conjunct2]
  have box: "field_float sample_env (Some (JStr ''45.5'')) = Inr (Fin 45.5)"
    by (simp add: field_float_def sample_env_simps decimal_samples)
  have price: "field_float sample_env (Some JNull) = Inr (Fin 0)"
    by (simp add: field_float_def)
  have aud: "field_float sample_env None = Inr (Fin 0)"
    by (simp add: field_float_def)
  have ok: "\<not> isl (to_row sample_env (JObj ?d))"
    using inst by (simp add: numeric_fields_def box price aud)
  then obtain r where r: "to_row sample_env (JObj ?d) = Inr r"
    by (cases "to_row sample_env (JObj ?d)") auto
  from inst r have "map_of r col_box = Some (Num 45.5)" "map_of r col_price = Some (Num 0)"
    "map_of r col_audience = Some (Num 0)"
    by (simp_all add: numeric_fields_def box price aud)
  with ok r show ?thesis
    by blast
qed

text \<open>
  The claim as the specification states it fails: text that is no number is not
  replaced by 0.0, the mapping raises \<^verbatim>\<open>ValueError\<close>.
\<close>

theorem to_row_unparseable_raises:
  "to_row sample_env
     (JObj [(''Irank'', JInt 1), (''MovieName'', JStr ''A''), (''ReleaseTime'', JStr ''2023-01-10''),
            (''BoxOffice'', JStr ''abc'')])
   = Inl (ValueError_float ''abc'')"
  by (simp add: to_row_def num_field_def dict_get_def py_or_def sample_env_simps decimal_samples)

section \<open>Properties of local ingestion\<close>

lemma cell_at_append:
  assumes "length r = length cols"
  shows "cell_at (cols @ A) (r @ B) c = (if c \<in> set cols then cell_at cols r c else cell_at A B c)"
proof -
  have z: "zip (cols @ A) (r @ B) = zip cols r @ zip A B"
    using assms by simp
  have n: "map_of (zip cols r) c = None \<longleftrightarrow> c \<notin> set cols"
    using assms by (simp add: map_of_zip_is_None)
  show ?thesis
    using n by (auto simp: cell_at_def z map_add_def split: option.splits)
qed

lemma alias_fold:
  assumes "list_all (\<lambda>r. length r = length cols) rws"
    and "distinct (map snd m)" and "set (map fst m) \<inter> set (map snd m) = {}"
  shows "foldl apply_alias \<lparr>columns = cols, rows = rws\<rparr> m =
     \<lparr>columns = cols @ map snd (active cols m),
      rows = map (\<lambda>r. r @ map (\<lambda>(en, cn). cell_at cols r en) (active cols m)) rws\<rparr>"
  using assms(2,3)
proof (induction m rule: rev_induct)
  case Nil
  then show ?case by (simp add: active_def)
next
  case (snoc x m)
  obtain en cn where x: "x = (en, cn)" by (cases x)
  from snoc.prems have d: "distinct (map snd m)" and i: "set (map fst m) \<inter> set (map snd m) = {}"
    and cn: "cn \<notin> snd ` set m" and en: "en \<notin> snd ` set m"
    by (auto simp: x)
  have sub: "snd ` set (active cols m) \<subseteq> snd ` set m"
    by (auto simp: active_def)
  let ?df = "\<lparr>columns = cols @ map snd (active cols m),
      rows = map (\<lambda>r. r @ map (\<lambda>(en, cn). cell_at cols r en) (active cols m)) rws\<rparr>"
  have IH: "foldl apply_alias \<lparr>columns = cols, rows = rws\<rparr> m = ?df"
    using snoc.IH [OF d i] .
  have c1: "en \<in> set (columns ?df) \<longleftrightarrow> en \<in> set cols"
    using en sub by auto
  have c2: "cn \<in> set (columns ?df) \<longleftrightarrow> cn \<in> set cols"
    using cn sub by auto
  show ?case
  proof (cases "en \<in> set cols \<and> cn \<notin> set cols")
    case False
    then have "apply_alias ?df x = ?df"
      unfolding apply_alias_def x using c1 c2 by auto
    moreover have "active cols (m @ [x]) = active cols m"
      using False by (auto simp: active_def x)
    ultimately show ?thesis
      by (simp add: IH)
  next
    case True
    have a: "active cols (m @ [x]) = active cols m @ [(en, cn)]"
      using True by (simp add: active_def x)
    have col: "column ?df en = map (\<lambda>r. cell_at cols r en) rws"
      using assms(1) True
      by (auto simp: column_def cell_at_append list_all_iff)
    have "apply_alias ?df x = set_column ?df cn (column ?df en)"
      unfolding apply_alias_def x using c1 c2 True by simp
    also have "\<dots> = \<lparr>columns = cols @ map snd (active cols (m @ [x])),
      rows = map (\<lambda>r. r @ map (\<lambda>(en, cn). cell_at cols r en) (active cols (m @ [x]))) rws\<rparr>"
      using c2 True
      by (simp add: set_column_def col a zip_map_map zip_same_conv_map)
    finally show ?thesis
      by (simp add: IH)
  qed
qed

lemma mapper_facts:
  "expected = map snd mapper" "distinct (map fst mapper)" "distinct (map snd mapper)"
  "set (map fst mapper) \<inter> set (map snd mapper) = {}"
  by (simp_all add: mapper_def expected_def col_defs)

lemma cell_at_map_same:
  "distinct cs \<Longrightarrow> c \<in> set cs \<Longrightarrow> cell_at cs (map f cs) c = f c"
  by (induction cs) (auto simp: cell_at_def)

lemma cell_at_map_pairs:
  "distinct (map snd ps) \<Longrightarrow> (en, cn) \<in> set ps \<Longrightarrow>
     cell_at (map snd ps) (map g ps) cn = g (en, cn)"
proof (induction ps)
  case Nil
  then show ?case by simp
next
  case (Cons p ps)
  then show ?case
    by (cases p) (auto simp: cell_at_def image_iff)
qed

lemma cell_at_map_inj:
  "inj_on f (insert x (set xs)) \<Longrightarrow> cell_at (map f xs) r (f x) = cell_at xs r x"
proof (induction xs arbitrary: r)
  case Nil
  then show ?case by (simp add: cell_at_def)
next
  case (Cons a xs)
  have inj: "inj_on f (insert x (set xs))"
    using Cons.prems by (auto simp: inj_on_def)
  have eq: "f a = f x \<longleftrightarrow> a = x"
    using Cons.prems by (auto simp: inj_on_def)
  show ?case
  proof (cases r)
    case Nil
    then show ?thesis by (simp add: cell_at_def)
  next
    case (Cons v vs)
    with Cons.IH [OF inj, of vs] eq show ?thesis
      by (auto simp: cell_at_def)
  qed
qed

lemma frame_eta: "(df :: frame) = \<lparr>columns = columns df, rows = rows df\<rparr>"
  by simp

lemma aliased_frame:
  assumes "list_all (\<lambda>r. length r = length (columns df)) (rows df)"
  shows "foldl apply_alias df mapper =
     \<lparr>columns = columns df @ map snd (active (columns df) mapper),
      rows = map (\<lambda>r. r @ map (\<lambda>(en, cn). cell_at (columns df) r en) (active (columns df) mapper))
        (rows df)\<rparr>"
proof -
  note assms
  moreover have e: "\<lparr>columns = columns df, rows = rows df\<rparr> = df"
    by simp
  ultimately show ?thesis
    using alias_fold [of "columns df" "rows df" mapper] mapper_facts(3,4) by (simp only: e)
qed

lemma active_mapper:
  "distinct (map snd (active cols mapper))"
  "(en, cn) \<in> set (active cols mapper) \<longleftrightarrow> (en, cn) \<in> set mapper \<and> en \<in> set cols \<and> cn \<notin> set cols"
  using mapper_facts(3) by (auto simp: active_def distinct_map_filter)

lemma mapper_snd_unique:
  assumes "(en, cn) \<in> set mapper" and "(en', cn) \<in> set mapper"
  shows "en' = en"
proof -
  have "inj_on snd (set mapper)"
    using mapper_facts(3) by (simp add: distinct_map)
  from inj_onD [OF this _ assms(2,1)] show ?thesis
    by simp
qed

text \<open>
  Claim C10. When the header mapping returns, the column under a canonical name is the
  snapshot's own column of that name whenever the snapshot has one, whatever its legacy
  alias holds; the alias column is used only when the canonical column is absent.
\<close>

theorem canonical_column_wins:
  assumes "wf_frame df" and "map_headers df = Inr out" and "(en, cn) \<in> set mapper"
  shows "column out cn = (if cn \<in> set (columns df) then column df cn else column df en)
    \<and> (cn \<in> set (columns df) \<or> en \<in> set (columns df))"
proof -
  let ?cols = "columns df"
  let ?act = "active ?cols mapper"
  let ?ext = "\<lambda>r. map (\<lambda>(en, cn). cell_at ?cols r en) ?act"
  let ?df' = "\<lparr>columns = ?cols @ map snd ?act, rows = map (\<lambda>r. r @ ?ext r) (rows df)\<rparr>"
  have len: "\<And>r. r \<in> set (rows df) \<Longrightarrow> length r = length ?cols"
    using assms(1) by (simp add: wf_frame_def list_all_iff)
  have cn_exp: "cn \<in> set expected"
    using assms(3) by (force simp: mapper_facts(1))
  have dexp: "distinct expected"
    using mapper_facts(3) by (simp add: mapper_facts(1))
  from assms(2) have sel: "select_columns ?df' expected = Inr out"
    using assms(1) by (simp add: map_headers_def aliased_frame wf_frame_def)
  then have nomiss: "filter (\<lambda>c. c \<notin> set (columns ?df')) expected = []"
    and out: "out = \<lparr>columns = expected,
        rows = map (\<lambda>r. map (cell_at (columns ?df') r) expected) (rows ?df')\<rparr>"
    by (auto simp: select_columns_def split: list.splits)
  from nomiss cn_exp have present: "cn \<in> set ?cols \<or> cn \<in> snd ` set ?act"
    by (auto simp: filter_empty_conv)
  have avail: "cn \<in> set ?cols \<or> en \<in> set ?cols"
  proof (cases "cn \<in> set ?cols")
    case True
    then show ?thesis by simp
  next
    case False
    with present obtain en' where "(en', cn) \<in> set ?act" by auto
    then have "(en', cn) \<in> set mapper" "en' \<in> set ?cols"
      by (auto simp: active_mapper(2))
    with mapper_snd_unique [OF assms(3)] show ?thesis by auto
  qed
  have cell: "cell_at (?cols @ map snd ?act) (r @ ?ext r) cn =
      (if cn \<in> set ?cols then cell_at ?cols r cn else cell_at ?cols r en)"
    if "r \<in> set (rows df)" for r
  proof (cases "cn \<in> set ?cols")
    case True
    then show ?thesis by (simp add: cell_at_append len [OF that])
  next
    case False
    with avail have "(en, cn) \<in> set ?act"
      using assms(3) by (simp add: active_mapper(2))
    from cell_at_map_pairs [OF active_mapper(1) this, of "\<lambda>(en, cn). cell_at ?cols r en"]
    show ?thesis
      using False by (simp add: cell_at_append len [OF that])
  qed
  have "column out cn = map (\<lambda>r. cell_at (?cols @ map snd ?act) (r @ ?ext r) cn) (rows df)"
    by (simp add: out column_def cell_at_map_same [OF dexp cn_exp] comp_def)
  also have "\<dots> = (if cn \<in> set ?cols then column df cn else column df en)"
    using cell by (auto simp: column_def)
  finally show ?thesis
    using avail by simp
qed

lemma select_mapper:
  assumes mem: "\<And>en cn. (en, cn) \<in> set mapper \<Longrightarrow> cn \<in> set (columns d) \<longleftrightarrow> en \<in> set cols"
    and cell: "\<And>en cn r. (en, cn) \<in> set mapper \<Longrightarrow> en \<in> set cols \<Longrightarrow> r \<in> set (rows d) \<Longrightarrow>
        cell_at (columns d) r cn = cell_at cols (g r) en"
  shows "select_columns d expected =
     (case filter (\<lambda>(en, cn). en \<notin> set cols) mapper of
        [] \<Rightarrow> Inr \<lparr>columns = expected,
                 rows = map (\<lambda>r. map (\<lambda>(en, cn). cell_at cols (g r) en) mapper) (rows d)\<rparr>
      | ms \<Rightarrow> Inl (KeyError_columns (map snd ms)))"
proof -
  have f: "filter (\<lambda>c. c \<notin> set (columns d)) expected =
      map snd (filter (\<lambda>(en, cn). en \<notin> set cols) mapper)"
    unfolding mapper_facts(1) filter_map
    by (rule arg_cong [where f = "map snd"], rule filter_cong) (auto simp: mem)
  show ?thesis
  proof (cases "filter (\<lambda>(en, cn). en \<notin> set cols) mapper")
    case Nil
    then have all: "\<And>en cn. (en, cn) \<in> set mapper \<Longrightarrow> en \<in> set cols"
      by (auto simp: filter_empty_conv)
    have "map (cell_at (columns d) r) expected = map (\<lambda>(en, cn). cell_at cols (g r) en) mapper"
      if "r \<in> set (rows d)" for r
      unfolding mapper_facts(1) map_map
      by (rule map_cong) (auto simp: cell [OF _ all that])
    then show ?thesis
      using Nil f by (simp add: select_columns_def cong: map_cong)
  next
    case (Cons m ms)
    then show ?thesis
      using f by (simp add: select_columns_def)
  qed
qed

lemma canonical_name_mapper: "(en, cn) \<in> set mapper \<Longrightarrow> canonical_name en = cn"
  using mapper_facts(2) by (simp add: canonical_name_def)

lemma legacy_not_canonical:
  "(en, cn) \<in> set mapper \<Longrightarrow> (en', cn') \<in> set mapper \<Longrightarrow> en \<noteq> cn'"
  using mapper_facts(4) by (force simp: disjoint_iff)

lemma inj_canonical_name: "inj_on canonical_name (fst ` set mapper)"
proof (rule inj_onI)
  fix a b
  assume "a \<in> fst ` set mapper" "b \<in> fst ` set mapper" "canonical_name a = canonical_name b"
  then obtain ca cb where "(a, ca) \<in> set mapper" "(b, cb) \<in> set mapper" "ca = cb"
    by (auto simp: canonical_name_mapper)
  then show "a = b"
    using mapper_snd_unique by blast
qed

lemma map_headers_legacy:
  assumes "wf_frame df" and "set (columns df) \<subseteq> fst ` set mapper"
  shows "map_headers df = legacy_result df"
proof -
  let ?cols = "columns df"
  let ?act = "active ?cols mapper"
  let ?ext = "\<lambda>r. map (\<lambda>(en, cn). cell_at ?cols r en) ?act"
  let ?df' = "\<lparr>columns = ?cols @ map snd ?act, rows = map (\<lambda>r. r @ ?ext r) (rows df)\<rparr>"
  have len: "list_all (\<lambda>r. length r = length ?cols) (rows df)"
    using assms(1) by (simp add: wf_frame_def)
  have notin: "cn \<notin> set ?cols" if "(en, cn) \<in> set mapper" for en cn
  proof
    assume "cn \<in> set ?cols"
    with assms(2) obtain c where "(cn, c) \<in> set mapper" by auto
    from legacy_not_canonical [OF this that] show False by simp
  qed
  have mem: "cn \<in> set (columns ?df') \<longleftrightarrow> en \<in> set ?cols" if "(en, cn) \<in> set mapper" for en cn
  proof
    assume "cn \<in> set (columns ?df')"
    with notin [OF that] obtain en' where "(en', cn) \<in> set ?act" by auto
    then have "(en', cn) \<in> set mapper" "en' \<in> set ?cols"
      by (simp_all add: active_mapper(2))
    with mapper_snd_unique [OF that] show "en \<in> set ?cols" by simp
  next
    assume "en \<in> set ?cols"
    with that notin [OF that] have "(en, cn) \<in> set ?act"
      by (simp add: active_mapper(2))
    then show "cn \<in> set (columns ?df')" by force
  qed
  have cell: "cell_at (columns ?df') r' cn = cell_at ?cols (take (length ?cols) r') en"
    if "(en, cn) \<in> set mapper" "en \<in> set ?cols" "r' \<in> set (rows ?df')" for en cn r'
  proof -
    from that(3) obtain r where r: "r \<in> set (rows df)" "r' = r @ ?ext r"
      by auto
    then have l: "length r = length ?cols"
      using len by (simp add: list_all_iff)
    have "(en, cn) \<in> set ?act"
      using that notin [OF that(1)] by (simp add: active_mapper(2))
    from cell_at_map_pairs [OF active_mapper(1) this, of "\<lambda>(en, cn). cell_at ?cols r en"]
    show ?thesis
      using notin [OF that(1)] l by (simp add: r cell_at_append)
  qed
  have "select_columns ?df' expected =
     (case filter (\<lambda>(en, cn). en \<notin> set ?cols) mapper of
        [] \<Rightarrow> Inr \<lparr>columns = expected,
                 rows = map (\<lambda>r. map (\<lambda>(en, cn). cell_at ?cols (take (length ?cols) r) en) mapper)
                   (rows ?df')\<rparr>
      | ms \<Rightarrow> Inl (KeyError_columns (map snd ms)))"
    by (rule select_mapper) (use mem cell in blast)+
  moreover have "map (\<lambda>r. map (\<lambda>(en, cn). cell_at ?cols (take (length ?cols) r) en) mapper) (rows ?df')
      = map (\<lambda>r. map (\<lambda>(en, cn). cell_at ?cols r en) mapper) (rows df)"
    using len by (simp add: list_all_iff comp_def)
  ultimately show ?thesis
    by (cases "filter (\<lambda>(en, cn). en \<notin> set ?cols) mapper")
      (simp_all add: map_headers_def aliased_frame [OF len] legacy_result_def)
qed

lemma map_headers_canonical:
  assumes "wf_frame df" and "set (columns df) \<subseteq> fst ` set mapper"
  shows "map_headers (with_canonical_headers df) = legacy_result df"
proof -
  let ?cols = "columns df"
  let ?d = "with_canonical_headers df"
  have len: "list_all (\<lambda>r. length r = length (columns ?d)) (rows ?d)"
    using assms(1) by (simp add: wf_frame_def with_canonical_headers_def)
  have canon: "canonical_name c \<in> snd ` set mapper" if "c \<in> set ?cols" for c
  proof -
    from assms(2) that obtain cc where cc: "(c, cc) \<in> set mapper" by auto
    then have "canonical_name c = cc" by (rule canonical_name_mapper)
    with cc show ?thesis by force
  qed
  have act: "active (columns ?d) mapper = []"
  proof -
    have "en \<notin> set (columns ?d)" if "(en, cn) \<in> set mapper" for en cn
      using canon legacy_not_canonical [OF that]
      by (fastforce simp: with_canonical_headers_def)
    then show ?thesis
      by (auto simp: active_def filter_empty_conv)
  qed
  have fold: "foldl apply_alias ?d mapper = ?d"
    by (simp add: aliased_frame [OF len] act)
  have mem: "cn \<in> set (columns ?d) \<longleftrightarrow> en \<in> set ?cols" if "(en, cn) \<in> set mapper" for en cn
  proof
    assume "cn \<in> set (columns ?d)"
    then obtain c where c: "c \<in> set ?cols" "canonical_name c = cn"
      by (auto simp: with_canonical_headers_def)
    with assms(2) obtain cc where "(c, cc) \<in> set mapper" by auto
    with c canonical_name_mapper have "(c, cn) \<in> set mapper" by auto
    with mapper_snd_unique [OF that] c show "en \<in> set ?cols" by auto
  next
    assume "en \<in> set ?cols"
    then show "cn \<in> set (columns ?d)"
      using canonical_name_mapper [OF that] by (force simp: with_canonical_headers_def)
  qed
  have cell: "cell_at (columns ?d) r cn = cell_at ?cols r en"
    if "(en, cn) \<in> set mapper" "en \<in> set ?cols" "r \<in> set (rows ?d)" for en cn r
  proof -
    have "inj_on canonical_name (insert en (set ?cols))"
      using assms(2) that(2) by (intro inj_on_subset [OF inj_canonical_name]) auto
    from cell_at_map_inj [OF this, of r] show ?thesis
      by (simp add: with_canonical_headers_def canonical_name_mapper [OF that(1)])
  qed
  have sel: "select_columns ?d expected =
     (case filter (\<lambda>(en, cn). en \<notin> set ?cols) mapper of
        [] \<Rightarrow> Inr \<lparr>columns = expected,
                 rows = map (\<lambda>r. map (\<lambda>(en, cn). cell_at ?cols r en) mapper) (rows ?d)\<rparr>
      | ms \<Rightarrow> Inl (KeyError_columns (map snd ms)))"
    by (rule select_mapper) (use mem cell in blast)+
  have r: "rows ?d = rows df"
    by (simp add: with_canonical_headers_def)
  show ?thesis
    using sel r
    by (cases "filter (\<lambda>(en, cn). en \<notin> set ?cols) mapper")
      (simp_all add: map_headers_def fold legacy_result_def)
qed

text \<open>
  Claim C8. A snapshot whose headers are all legacy names and the same table under the
  canonical names give the same result, field for field (the same dataset, or the same
  \<^verbatim>\<open>KeyError\<close> when a column is missing); with all six legacy headers the result is the
  dataset whose columns are the canonical six, holding the values of their aliases.
\<close>

theorem legacy_headers_same_dataset:
  assumes "wf_frame df" and "set (columns df) \<subseteq> fst ` set mapper"
    and "read_csv env p = Inr df" and "read_csv env q = Inr (with_canonical_headers df)"
  shows "read_local env p = read_local env q
    \<and> (fst ` set mapper \<subseteq> set (columns df) \<longrightarrow>
         read_local env p = Inr \<lparr>columns = expected,
            rows = map (\<lambda>r. map (\<lambda>(en, cn). cell_at (columns df) r en) mapper) (rows df)\<rparr>)"
proof -
  have "filter (\<lambda>(en, cn). en \<notin> set (columns df)) mapper = []"
    if "fst ` set mapper \<subseteq> set (columns df)"
    using that by (auto simp: filter_empty_conv)
  then show ?thesis
    using map_headers_legacy [OF assms(1,2)] map_headers_canonical [OF assms(1,2)]
    by (simp add: read_local_def assms(3,4) legacy_result_def)
qed

lemma wf_legacy_frame: "wf_frame legacy_frame"
  by (simp add: wf_frame_def legacy_frame_def)

lemma wf_both_frame: "wf_frame both_frame"
  by (simp add: wf_frame_def both_frame_def col_defs)

theorem legacy_headers_same_dataset_witness:
  "read_local local_env ''legacy.csv'' = read_local local_env ''canonical.csv''
   \<and> read_local local_env ''legacy.csv'' =
       Inr \<lparr>columns = expected,
            rows = [[Num 1, Str ''A'', Str ''2023-01-10'', Num 1000, Num 45.5, Num 120],
                    [Num 2, Str ''B'', Str ''2022-12-25'', Num 800, Num 50, Num 90]]\<rparr>"
proof -
  have sub: "set (columns legacy_frame) \<subseteq> fst ` set mapper"
    "fst ` set mapper \<subseteq> set (columns legacy_frame)"
    by (simp_all add: legacy_frame_def mapper_def)
  have p: "read_csv local_env ''legacy.csv'' = Inr legacy_frame"
    and q: "read_csv local_env ''canonical.csv'' = Inr (with_canonical_headers legacy_frame)"
    by (simp_all add: local_env_def)
  have rws: "map (\<lambda>r. map (\<lambda>(en, cn). cell_at (columns legacy_frame) r en) mapper)
        (rows legacy_frame) = rows legacy_frame"
    by (simp add: legacy_frame_def mapper_def cell_at_def)
  note inst = legacy_headers_same_dataset [OF wf_legacy_frame sub(1) p q]
  from inst have a: "read_local local_env ''legacy.csv'' = read_local local_env ''canonical.csv''"
    by (rule conjunct1)
  from inst sub(2) have "read_local local_env ''legacy.csv'' =
      Inr \<lparr>columns = expected,
           rows = map (\<lambda>r. map (\<lambda>(en, cn). cell_at (columns legacy_frame) r en) mapper)
             (rows legacy_frame)\<rparr>"
    by blast
  then have b: "read_local local_env ''legacy.csv'' =
      Inr \<lparr>columns = expected, rows = rows legacy_frame\<rparr>"
    by (simp only: rws)
  show ?thesis
  proof (intro conjI)
    show "read_local local_env ''legacy.csv'' = read_local local_env ''canonical.csv''"
      by (rule a)
    show "read_local local_env ''legacy.csv'' =
       Inr \<lparr>columns = expected,
            rows = [[Num 1, Str ''A'', Str ''2023-01-10'', Num 1000, Num 45.5, Num 120],
                    [Num 2, Str ''B'', Str ''2022-12-25'', Num 800, Num 50, Num 90]]\<rparr>"
      using b by (simp add: legacy_frame_def)
  qed
qed

theorem canonical_column_wins_witness:
  "\<exists>out. map_headers both_frame = Inr out \<and> column out col_box = [Num 1000]
     \<and> column out col_rank = [Num 1]"
proof -
  have m: "(''TotalBoxOffice(10k RMB)'', col_box) \<in> set mapper" "(''Rank'', col_rank) \<in> set mapper"
    by (simp_all add: mapper_def)
  have ev: "map_headers both_frame =
      Inr \<lparr>columns = expected, rows = [[Num 1, Str ''A'', Str ''2023-01-10'', Num 1000, Num 45.5, Num 120]]\<rparr>"
    by (simp add: map_headers_def mapper_def both_frame_def apply_alias_def set_column_def
        column_def cell_at_def select_columns_def expected_def col_defs)
  have c: "column both_frame col_box = [Num 1000]" "column both_frame ''Rank'' = [Num 1]"
    "col_box \<in> set (columns both_frame)" "col_rank \<notin> set (columns both_frame)"
    by (simp_all add: both_frame_def column_def cell_at_def col_defs)
  from canonical_column_wins [OF wf_both_frame ev m(1)] canonical_column_wins [OF wf_both_frame ev m(2)]
  show ?thesis
    using ev c by simp
qed

section \<open>Properties of normalisation\<close>

lemma expected_cols:
  "col_release \<in> set expected" "col_rank \<in> set expected" "col_parsed \<notin> set expected"
  "col_year \<notin> set expected" "col_parsed \<noteq> col_year" "distinct expected"
  "col_name \<in> set expected" "col_box \<in> set expected" "col_price \<in> set expected"
  "col_audience \<in> set expected"
  by (simp_all add: expected_def col_defs)

lemma cell_at_single [simp]: "cell_at (c # cs) (v # vs) c = v"
  by (simp add: cell_at_def)

lemma cell_at_with_dates:
  assumes "length r = length expected"
  shows "cell_at out_columns (r @ [p, y]) col_parsed = p"
    and "cell_at out_columns (r @ [p, y]) col_year = y"
    and "c \<in> set expected \<Longrightarrow> cell_at out_columns (r @ [p, y]) c = cell_at expected r c"
  using assms expected_cols(3,4,5)
  by (auto simp: out_columns_def cell_at_append) (simp add: cell_at_def)

lemma frame_update_all:
  "(df :: frame)\<lparr>columns := cs, rows := rs\<rparr> = \<lparr>columns = cs, rows = rs\<rparr>"
  by (cases df) simp

lemma map2_map_same: "map2 f xs (map g xs) = map (\<lambda>x. f x (g x)) xs"
  by (induction xs) simp_all

lemma map2_map_both: "map2 f (map g xs) (map h xs) = map (\<lambda>x. f (g x) (h x)) xs"
  by (induction xs) simp_all

lemma years_of_column_one_zone:
  "years_of_column cs =
     (if one_zone cs then Inr (map year_of cs)
      else Inl (if list_ex (\<lambda>c. kind_of c \<noteq> Missing \<and> kind_of c \<noteq> Time) cs
                then TypeError_datetime else ValueError_mixed_timezones))"
  by (auto simp: years_of_column_def one_zone_def list_ex_iff list_all_iff)

lemma zone_in_zones: "TS t \<in> set cs \<Longrightarrow> zone t \<in> set (zones cs)"
  by (force simp: zones_def)

lemma one_zone_same:
  assumes "one_zone cs" and "TS s \<in> set cs" and "TS t \<in> set cs"
  shows "zone s = zone t"
proof -
  from assms(1) have "length (zones cs) \<le> 1"
    by (simp add: one_zone_def)
  then consider "zones cs = []" | z where "zones cs = [z]"
    by (cases "zones cs") (auto simp: length_Suc_conv)
  then show ?thesis
    using zone_in_zones [OF assms(2)] zone_in_zones [OF assms(3)] by cases auto
qed

lemma one_zone_sortable:
  assumes "one_zone cs"
  shows "sortable cs"
proof -
  have kinds: "kind_of c = Missing \<or> kind_of c = Time" if "c \<in> set cs" for c
    using assms that by (simp add: one_zone_def list_all_iff)
  have "\<not> (list_ex naive cs \<and> list_ex aware cs)"
  proof
    assume "list_ex naive cs \<and> list_ex aware cs"
    then obtain a b where ab: "a \<in> set cs" "naive a" "b \<in> set cs" "aware b"
      by (auto simp: list_ex_iff)
    from ab(2) obtain s where s: "a = TS s" "zone s = None"
      by (cases a) (simp_all add: naive_def)
    from ab(4) obtain t where t: "b = TS t" "zone t \<noteq> None"
      by (cases b) (simp_all add: aware_def)
    from one_zone_same [OF assms] ab(1,3) s t show False
      by metis
  qed
  moreover have "Container \<notin> set (map kind_of cs)" "Numeric \<notin> set (map kind_of cs)"
    using kinds by force+
  ultimately show ?thesis
    by (simp add: sortable_def Let_def)
qed

lemma preprocess_steps:
  assumes "wf_frame df" and "columns df = expected"
  shows "preprocess env df =
     (case years_of_column (map (parse_date env) (column df col_release)) of
        Inl e \<Rightarrow> Inl e
      | Inr years \<Rightarrow>
          sort_values \<lparr>columns = out_columns, rows = with_dates env df\<rparr> col_parsed col_rank)"
proof -
  let ?f = "\<lambda>r. parse_date env (cell_at expected r col_release)"
  have len: "\<And>r. r \<in> set (rows df) \<Longrightarrow> length r = length expected"
    using assms by (simp add: wf_frame_def list_all_iff)
  define vals where "vals = map (parse_date env) (column df col_release)"
  define df1 where "df1 = set_column df col_parsed vals"
  have vals: "vals = map ?f (rows df)"
    by (simp add: vals_def column_def assms(2))
  have df1: "df1 = \<lparr>columns = expected @ [col_parsed], rows = map (\<lambda>r. r @ [?f r]) (rows df)\<rparr>"
    using expected_cols(3)
    by (simp add: df1_def vals_def set_column_def assms(2) column_def map2_map_same comp_def
        frame_update_all)
  have col1: "column df1 col_parsed = vals"
    using expected_cols(3) len
    by (simp add: df1 vals column_def comp_def cell_at_append)
  have df2: "set_column df1 col_year (map year_of vals) =
      \<lparr>columns = out_columns, rows = with_dates env df\<rparr>"
    unfolding vals using expected_cols(4,5)
    by (simp add: df1 set_column_def map2_map_both comp_def out_columns_def
        with_dates_def assms(2))
  have years: "years_of_column vals = Inr years \<Longrightarrow> years = map year_of vals" for years
    by (simp add: years_of_column_def split: if_splits)
  have "preprocess env df =
      (case years_of_column vals of
         Inl e \<Rightarrow> Inl e
       | Inr years \<Rightarrow> sort_values (set_column df1 col_year years) col_parsed col_rank)"
    using expected_cols(1)
    by (simp add: preprocess_def require_columns_def assms(2) Let_def df1_def [symmetric]
        vals_def [symmetric] col1)
  also have "\<dots> =
      (case years_of_column vals of
         Inl e \<Rightarrow> Inl e
       | Inr years \<Rightarrow>
           sort_values \<lparr>columns = out_columns, rows = with_dates env df\<rparr> col_parsed col_rank)"
  proof (cases "years_of_column vals")
    case (Inl e)
    then show ?thesis by simp
  next
    case (Inr ys)
    with years have "ys = map year_of vals" by simp
    with Inr show ?thesis by (simp add: df2)
  qed
  finally show ?thesis
    by (simp only: vals_def)
qed

lemma preprocess_result:
  assumes "wf_frame df" and "columns df = expected"
  shows "preprocess env df =
     (if \<not> one_zone (map (parse_date env) (column df col_release))
      then Inl (if list_ex (\<lambda>c. kind_of c \<noteq> Missing \<and> kind_of c \<noteq> Time)
                     (map (parse_date env) (column df col_release))
                then TypeError_datetime else ValueError_mixed_timezones)
      else if sortable (column df col_rank)
      then Inr \<lparr>columns = out_columns,
                rows = sort_key (row_key out_columns col_parsed col_rank) (with_dates env df)\<rparr>
      else Inl TypeError_sort)"
proof (cases "one_zone (map (parse_date env) (column df col_release))")
  case False
  then show ?thesis
    unfolding preprocess_steps [OF assms] by (simp add: years_of_column_one_zone)
next
  case True
  let ?df2 = "\<lparr>columns = out_columns, rows = with_dates env df\<rparr>"
  have len: "\<And>r. r \<in> set (rows df) \<Longrightarrow> length r = length expected"
    using assms by (simp add: wf_frame_def list_all_iff)
  have req: "require_columns ?df2 [col_parsed, col_rank] = Inr ()"
    using expected_cols(2) by (simp add: require_columns_def out_columns_def)
  have "column ?df2 col_parsed = map (parse_date env) (column df col_release)"
    using len by (simp add: column_def with_dates_def comp_def cell_at_with_dates assms(2))
  then have s1: "sortable (column ?df2 col_parsed)"
    using True by (simp add: one_zone_sortable)
  have s2: "column ?df2 col_rank = column df col_rank"
    using len expected_cols(2)
    by (simp add: column_def with_dates_def comp_def cell_at_with_dates assms(2))
  show ?thesis
    unfolding preprocess_steps [OF assms]
    by (simp add: years_of_column_one_zone True sort_values_def req s1 s2)
qed








lemma stamp_samples:
  "iso_stamp ''2023-01-10'' = Some (midnight 2023 1 10)"
  "iso_stamp ''2022-12-25'' = Some (midnight 2022 12 25)"
  "iso_stamp ''soon'' = None"
  "iso_stamp ''2023-01-10T00:00:00+08:00'' = Some (midnight_east8 2023 1 10)"
  by (simp_all add: iso_stamp_def iso_date_def digit_of_def days_in_month_def)

lemma parse_samples:
  "parse_date sample_env (Str ''2023-01-10'') = TS (midnight 2023 1 10)"
  "parse_date sample_env (Str ''2022-12-25'') = TS (midnight 2022 12 25)"
  "parse_date sample_env (Str ''soon'') = NA"
  "parse_date sample_env (Str ''2023-01-10T00:00:00+08:00'') = TS (midnight_east8 2023 1 10)"
  by (simp_all add: parse_date_def sample_env_simps iso_to_datetime_def stamp_samples)

lemma midnight_simps:
  "instant (midnight 2023 1 10) = 1673308800000000000"
  "instant (midnight 2023 (Suc 0) 10) = 1673308800000000000"
  "instant (midnight_east8 2023 1 10) = 1673280000000000000"
  "instant (midnight 2022 12 25) = 1671926400000000000"
  "civil_year (midnight y m d) = y" "zone (midnight y m d) = None"
  "civil_year (midnight_east8 y m d) = y" "zone (midnight_east8 y m d) = Some ''UTC+08:00''"
  by (simp_all add: midnight_def midnight_east8_def days_from_civil_def)







section \<open>Ingested and normalised datasets\<close>

lemma try_map_Inr:
  "try_map f xs = Inr ys \<Longrightarrow> list_all2 (\<lambda>x y. f x = Inr y) xs ys"
  by (induction xs arbitrary: ys) (auto split: sum.splits)

lemma try_map_results:
  "try_map f xs = Inr ys \<Longrightarrow> y \<in> set ys \<Longrightarrow> \<exists>x \<in> set xs. f x = Inr y"
  by (induction xs arbitrary: ys) (auto split: sum.splits)




lemma to_row_object:
  assumes "to_row env item = Inr rec"
  shows "\<exists>d. item = JObj d \<and> mapped_entry env d = Inr rec"
  using assms to_row_mapped by (cases item) (simp_all add: to_row_def)

lemma to_row_shape:
  assumes "to_row env item = Inr rec"
  shows "map fst rec = expected" and "entry_cells env item = map snd rec"
proof -
  from to_row_object [OF assms] obtain d where d: "item = JObj d" "mapped_entry env d = Inr rec"
    by blast
  from mapped_entry_cells [OF d(2)] show "map fst rec = expected"
    by (auto simp: expected_def)
  show "entry_cells env item = map snd rec"
    by (simp add: entry_cells_def d)
qed

lemma fetch_online_frame:
  assumes "fetch_online env = Inr df"
  shows "\<exists>items recs. response_entries env = Inr items \<and> try_map (to_row env) items = Inr recs
     \<and> recs \<noteq> [] \<and> df = \<lparr>columns = expected, rows = map (map snd) recs\<rparr>"
proof -
  from assms obtain body table items recs where
    "http_json env = Inr body" "extract_table body = Inr table" "iterate table = Inr items"
    and recs: "try_map (to_row env) items = Inr recs"
    and df: "\<not> is_empty (DataFrame recs)" "df = DataFrame recs"
    by (auto simp: fetch_online_def Let_def split: sum.splits if_splits)
  then have items: "response_entries env = Inr items"
    by (simp add: response_entries_def)
  from df(1) have ne: "recs \<noteq> []"
    by (auto simp: is_empty_def DataFrame_def)
  then obtain r rs where rr: "recs = r # rs" by (cases recs) auto
  with try_map_results [OF recs, of r] to_row_shape(1) have "map fst r = expected"
    by auto
  then have "df = \<lparr>columns = expected, rows = map (map snd) recs\<rparr>"
    by (simp add: df(2) DataFrame_def rr)
  with recs ne items show ?thesis
    by blast
qed

lemma fetch_online_rows:
  assumes "fetch_online env = Inr df"
  shows "\<exists>items. response_entries env = Inr items \<and> items \<noteq> [] \<and> columns df = expected
     \<and> rows df = map (entry_cells env) items
     \<and> (\<forall>i \<in> set items. \<exists>d. i = JObj d \<and> \<not> isl (mapped_entry env d))"
proof -
  from fetch_online_frame [OF assms] obtain items recs where
    items: "response_entries env = Inr items" and recs: "try_map (to_row env) items = Inr recs"
    and ne: "recs \<noteq> []" and df: "df = \<lparr>columns = expected, rows = map (map snd) recs\<rparr>"
    by blast
  from try_map_Inr [OF recs] have all: "list_all2 (\<lambda>x y. to_row env x = Inr y) items recs" .
  then have "list_all2 (\<lambda>x y. entry_cells env x = map snd y) items recs"
    by (rule list_all2_mono) (simp add: to_row_shape(2))
  then have rows: "map (entry_cells env) items = map (map snd) recs"
    by (induction rule: list_all2_induct) simp_all
  have "\<exists>d. i = JObj d \<and> \<not> isl (mapped_entry env d)" if "i \<in> set items" for i
  proof -
    from that all obtain rec where "to_row env i = Inr rec"
      by (auto simp: list_all2_conv_all_nth in_set_conv_nth)
    from to_row_object [OF this] show ?thesis
      by auto
  qed
  moreover from all ne have "items \<noteq> []"
    by auto
  ultimately show ?thesis
    using items df rows by auto
qed

lemma entry_cells_length:
  assumes "i = JObj d" and "\<not> isl (mapped_entry env d)"
  shows "length (entry_cells env i) = length expected"
proof -
  from assms(2) obtain r where r: "mapped_entry env d = Inr r"
    by (cases "mapped_entry env d") auto
  from mapped_entry_cells [OF r] show ?thesis
    by (auto simp: entry_cells_def assms(1) r expected_def)
qed

lemma fetch_online_wf:
  assumes "fetch_online env = Inr df"
  shows "wf_frame df" "columns df = expected"
proof -
  from fetch_online_rows [OF assms] obtain items where
    cols: "columns df = expected" and rows: "rows df = map (entry_cells env) items"
    and all: "\<forall>i \<in> set items. \<exists>d. i = JObj d \<and> \<not> isl (mapped_entry env d)"
    by blast
  show "columns df = expected" by (rule cols)
  have "length r = length expected" if "r \<in> set (rows df)" for r
    using that all entry_cells_length by (auto simp: rows)
  then show "wf_frame df"
    using expected_cols(6) by (simp add: wf_frame_def list_all_iff cols)
qed

lemma map_headers_wf:
  assumes "map_headers raw = Inr df"
  shows "wf_frame df" "columns df = expected"
  using assms expected_cols(6)
  by (auto simp: map_headers_def select_columns_def wf_frame_def list_all_iff split: list.splits)

lemma read_local_wf:
  assumes "read_local env p = Inr df"
  shows "wf_frame df" "columns df = expected"
proof -
  from assms obtain raw where "map_headers raw = Inr df"
    by (auto simp: read_local_def split: sum.splits)
  then show "wf_frame df" "columns df = expected"
    by (rule map_headers_wf)+
qed

lemma preprocess_rows:
  assumes "preprocess env df0 = Inr df" and "wf_frame df0" and "columns df0 = expected"
  shows "columns df = out_columns"
    and "rows df = sort_key (row_key out_columns col_parsed col_rank) (with_dates env df0)"
    and "one_zone (map (parse_date env) (column df0 col_release))"
  using assms(1) unfolding preprocess_result [OF assms(2,3)]
  by (auto split: if_splits)

lemma year_of_date: "kind_of c = Missing \<or> kind_of c = Time \<Longrightarrow> year_of c = NA \<longleftrightarrow> c = NA"
  by (cases c) (simp_all add: year_of_def)

lemma with_dates_take:
  assumes "wf_frame df0" and "columns df0 = expected"
  shows "map (take (length expected)) (with_dates env df0) = rows df0"
proof -
  have "\<And>r. r \<in> set (rows df0) \<Longrightarrow> length r = length expected"
    using assms by (simp add: wf_frame_def list_all_iff)
  then show ?thesis
    by (simp add: with_dates_def comp_def map_idI)
qed

text \<open>
  Claim C9, as the code has it. In every dataset that ingestion (remote or local)
  followed by normalisation returns, the release date and the year of a record are both
  missing or both present, and the first six cells of the records are the records of
  the ingested dataset, unchanged but for their order. After remote ingestion the
  ingested records are the cells of the entries of the response, in their order, as
  \<open>mapped_entry\<close> gives them: rank, title and release text as the entry has them
  (missing when it has none), and each numeric field the float of \<open>field_float\<close>, which
  is missing when that float is not-a-number. Nothing makes a rank, a title or a
  numeric field present.
\<close>

theorem normalized_record_invariant:
  assumes "preprocess env df0 = Inr df"
    and "fetch_online env = Inr df0 \<or> (\<exists>p. read_local env p = Inr df0)"
  shows "(\<forall>r \<in> set (rows df).
            cell_at (columns df) r col_parsed = NA \<longleftrightarrow> cell_at (columns df) r col_year = NA)
    \<and> columns df = expected @ [col_parsed, col_year]
    \<and> mset (map (take (length expected)) (rows df)) = mset (rows df0)
    \<and> (fetch_online env = Inr df0 \<longrightarrow>
         (\<exists>items. response_entries env = Inr items \<and> rows df0 = map (entry_cells env) items
            \<and> (\<forall>i \<in> set items. \<exists>d. i = JObj d \<and> \<not> isl (mapped_entry env d))))"
proof -
  have wf: "wf_frame df0" "columns df0 = expected"
    using assms(2) fetch_online_wf read_local_wf by blast+
  have len: "\<And>r. r \<in> set (rows df0) \<Longrightarrow> length r = length expected"
    using wf by (simp add: wf_frame_def list_all_iff)
  note pre = preprocess_rows [OF assms(1) wf]
  have 1: "\<forall>r \<in> set (rows df).
      cell_at (columns df) r col_parsed = NA \<longleftrightarrow> cell_at (columns df) r col_year = NA"
  proof
    fix r
    assume "r \<in> set (rows df)"
    then obtain r0 where r0: "r0 \<in> set (rows df0)"
      and rr: "r = r0 @ [parse_date env (cell_at expected r0 col_release),
                   year_of (parse_date env (cell_at expected r0 col_release))]"
      by (auto simp: pre(2) with_dates_def wf(2))
    have "parse_date env (cell_at expected r0 col_release)
        \<in> set (map (parse_date env) (column df0 col_release))"
      using r0 by (auto simp: column_def wf(2))
    with pre(3) have "kind_of (parse_date env (cell_at expected r0 col_release)) = Missing
        \<or> kind_of (parse_date env (cell_at expected r0 col_release)) = Time"
      unfolding one_zone_def list_all_iff by blast
    then show "cell_at (columns df) r col_parsed = NA \<longleftrightarrow> cell_at (columns df) r col_year = NA"
      by (simp add: pre(1) rr cell_at_with_dates len [OF r0] year_of_date)
  qed
  have 2: "columns df = expected @ [col_parsed, col_year]"
    by (simp add: pre(1) out_columns_def)
  have "mset (map (take (length expected)) (rows df)) =
      mset (map (take (length expected)) (with_dates env df0))"
    unfolding pre(2) mset_map by simp
  then have 3: "mset (map (take (length expected)) (rows df)) = mset (rows df0)"
    by (simp only: with_dates_take [OF wf])
  have 4: "\<exists>items. response_entries env = Inr items \<and> rows df0 = map (entry_cells env) items
      \<and> (\<forall>i \<in> set items. \<exists>d. i = JObj d \<and> \<not> isl (mapped_entry env d))"
    if "fetch_online env = Inr df0"
    using fetch_online_rows [OF that] by blast
  from 1 2 3 4 show ?thesis
    by blast
qed

lemma fetch_sample: "fetch_online sample_env = Inr two_raw"
  by (simp add: fetch_online_def sample_env_simps sample_body_def extract_table_def py_get_def
      py_or_def dict_get_def entry_A_def entry_B_def to_row_def num_field_def int_to_float_def
      DataFrame_def is_empty_def two_raw_def expected_def)

lemma nameless_env_simps:
  "to_datetime nameless_env = iso_to_datetime"
  "float_of_str nameless_env = decimal_of_str"
  by (simp_all add: nameless_env_def sample_env_simps)

lemma fetch_nameless: "fetch_online nameless_env = Inr nameless_raw"
  by (simp add: fetch_online_def nameless_env_def extract_table_def py_get_def
      py_or_def dict_get_def to_row_def num_field_def int_to_float_def DataFrame_def
      is_empty_def nameless_raw_def expected_def sample_env_simps decimal_samples)

lemma gaps_env_simps:
  "to_datetime gaps_env = iso_to_datetime"
  "path_exists gaps_env = (\<lambda>p. p = ''gaps.csv'')"
  "read_csv gaps_env = (\<lambda>p. if p = ''gaps.csv'' then Inr gaps_raw else Inl FileNotFoundError)"
  by (simp_all add: gaps_env_def sample_env_simps)

lemma read_gaps: "read_local gaps_env ''gaps.csv'' = Inr gaps_raw"
  by (simp add: read_local_def gaps_env_simps map_headers_def mapper_def apply_alias_def
      select_columns_def gaps_raw_def expected_def cell_at_def col_defs)

lemma two_raw_wf: "wf_frame two_raw" "columns two_raw = expected"
  by (simp_all add: two_raw_def wf_frame_def expected_def col_defs)

lemma nameless_raw_wf: "wf_frame nameless_raw" "columns nameless_raw = expected"
  by (simp_all add: nameless_raw_def wf_frame_def expected_def col_defs)

lemma gaps_raw_wf: "wf_frame gaps_raw" "columns gaps_raw = expected"
  by (simp_all add: gaps_raw_def wf_frame_def expected_def col_defs)

lemma one_row_one_zone: "one_zone [TS t]" "sortable [c] \<longleftrightarrow> kind_of c \<noteq> Container"
  by (auto simp: one_zone_def zones_def sortable_def naive_def aware_def split: cell.splits)

lemma preprocess_two: "preprocess sample_env two_raw = Inr two_sorted"
  unfolding preprocess_result [OF two_raw_wf]
  by (simp add: with_dates_def two_raw_def two_sorted_def out_columns_def sortable_def column_def
      cell_at_def expected_def col_defs row_key_def parse_samples year_of_def one_zone_def
      zones_def naive_def aware_def midnight_simps)

lemma preprocess_nameless: "preprocess nameless_env nameless_raw = Inr nameless_sorted"
  unfolding preprocess_result [OF nameless_raw_wf]
  by (simp add: with_dates_def nameless_raw_def nameless_sorted_def out_columns_def
      column_def cell_at_def expected_def col_defs row_key_def year_of_def
      parse_date_def nameless_env_simps iso_to_datetime_def stamp_samples one_row_one_zone
      midnight_simps)

lemma preprocess_gaps: "preprocess gaps_env gaps_raw = Inr gaps_sorted"
  unfolding preprocess_result [OF gaps_raw_wf]
  by (simp add: with_dates_def gaps_raw_def gaps_sorted_def out_columns_def
      column_def cell_at_def expected_def col_defs row_key_def year_of_def
      parse_date_def gaps_env_simps iso_to_datetime_def stamp_samples one_row_one_zone
      midnight_simps)

theorem normalized_record_invariant_witness:
  "fetch_online sample_env = Inr two_raw \<and> preprocess sample_env two_raw = Inr two_sorted
   \<and> list_all (\<lambda>r. cell_at (columns two_sorted) r col_parsed = NA
                      \<longleftrightarrow> cell_at (columns two_sorted) r col_year = NA) (rows two_sorted)
   \<and> mset (map (take 6) (rows two_sorted)) = mset (rows two_raw)
   \<and> rows two_raw = map (entry_cells sample_env) [entry_A, entry_B]"
proof -
  have items: "response_entries sample_env = Inr [entry_A, entry_B]"
    by (simp add: response_entries_def sample_env_simps sample_body_def extract_table_def
        py_get_def py_or_def dict_get_def)
  have len: "length expected = 6"
    by (simp add: expected_def)
  note inst = normalized_record_invariant [OF preprocess_two disjI1 [OF fetch_sample]]
  from inst have a: "list_all (\<lambda>r. cell_at (columns two_sorted) r col_parsed = NA
      \<longleftrightarrow> cell_at (columns two_sorted) r col_year = NA) (rows two_sorted)"
    unfolding list_all_iff by blast
  from inst have b: "mset (map (take 6) (rows two_sorted)) = mset (rows two_raw)"
    unfolding len by blast
  from inst fetch_sample obtain items where
    "response_entries sample_env = Inr items" "rows two_raw = map (entry_cells sample_env) items"
    by blast
  with items have c: "rows two_raw = map (entry_cells sample_env) [entry_A, entry_B]"
    by simp
  from fetch_sample preprocess_two a b c show ?thesis
    by blast
qed

text \<open>
  The claim as stated fails for each of the five fields. A remote entry without
  \<^verbatim>\<open>Irank\<close> and \<^verbatim>\<open>MovieName\<close> whose revenue is the text \<^verbatim>\<open>nan\<close> is ingested and
  normalised with rank, title and revenue missing; a local snapshot with empty cells
  keeps them empty.
\<close>

theorem normalized_fields_null:
  "fetch_online nameless_env = Inr nameless_raw
   \<and> preprocess nameless_env nameless_raw = Inr nameless_sorted
   \<and> column nameless_sorted col_rank = [NA] \<and> column nameless_sorted col_name = [NA]
   \<and> column nameless_sorted col_box = [NA]
   \<and> read_local gaps_env ''gaps.csv'' = Inr gaps_raw
   \<and> preprocess gaps_env gaps_raw = Inr gaps_sorted
   \<and> column gaps_sorted col_rank = [NA] \<and> column gaps_sorted col_name = [NA]
   \<and> column gaps_sorted col_box = [NA] \<and> column gaps_sorted col_price = [NA]
   \<and> column gaps_sorted col_audience = [NA]"
  by (simp add: fetch_nameless preprocess_nameless read_gaps preprocess_gaps)
    (simp add: nameless_sorted_def gaps_sorted_def column_def cell_at_def expected_def col_defs)

section \<open>Properties of the yearly aggregate\<close>

lemma group_insert_keys: "set (map fst (group_insert k v g)) = insert k (set (map fst g))"
  by (induction k v g rule: group_insert.induct) auto

lemma group_insert_sorted:
  "sorted_wrt (<) (map fst g) \<Longrightarrow> sorted_wrt (<) (map fst (group_insert k v g))"
proof (induction g)
  case Nil
  then show ?case by simp
next
  case (Cons a g)
  obtain k' vs where a: "a = (k', vs)" by (cases a)
  from Cons show ?case
    using group_insert_keys [of k v g] by (auto simp: a)
qed

lemma group_insert_lookup:
  "sorted_wrt (<) (map fst g) \<Longrightarrow>
     map_of (group_insert k v g) k' =
       (if k' = k then Some ((case map_of g k of None \<Rightarrow> [] | Some vs \<Rightarrow> vs) @ [v])
        else map_of g k')"
proof (induction g)
  case Nil
  then show ?case by simp
next
  case (Cons a g)
  obtain k0 vs where a: "a = (k0, vs)" by (cases a)
  have none: "map_of g k = None" if "k < k0"
  proof -
    have "k \<notin> fst ` set g"
      using Cons.prems that by (auto simp: a)
    then show ?thesis
      by (simp add: map_of_eq_None_iff)
  qed
  from Cons show ?case
    using none by (auto simp: a)
qed

lemma group_fold:
  "sorted_wrt (<) (map fst (foldl (group_step cols) [] rs))
   \<and> set (map fst (foldl (group_step cols) [] rs))
        = {y. \<exists>r \<in> set rs. year_key (cell_at cols r col_year) = Some y}
   \<and> (\<forall>y vs. map_of (foldl (group_step cols) [] rs) y = Some vs \<longrightarrow> vs = group_values cols rs y)"
proof (induction rs rule: rev_induct)
  case Nil
  then show ?case by simp
next
  case (snoc r rs)
  let ?g = "foldl (group_step cols) [] rs"
  from snoc have srt: "sorted_wrt (<) (map fst ?g)"
    and keys: "set (map fst ?g) = {y. \<exists>r \<in> set rs. year_key (cell_at cols r col_year) = Some y}"
    and vals: "\<And>y vs. map_of ?g y = Some vs \<Longrightarrow> vs = group_values cols rs y"
    by blast+
  show ?case
  proof (cases "year_key (cell_at cols r col_year)")
    case None
    then have "foldl (group_step cols) [] (rs @ [r]) = ?g"
      by (simp add: group_step_def)
    moreover have "group_values cols (rs @ [r]) y = group_values cols rs y" for y
      using None by (simp add: group_values_def)
    ultimately show ?thesis
      using srt keys vals None by auto
  next
    case (Some k)
    let ?v = "cell_at cols r col_box"
    have step: "foldl (group_step cols) [] (rs @ [r]) = group_insert k ?v ?g"
      using Some by (simp add: group_step_def)
    have empty: "group_values cols rs k = []" if "map_of ?g k = None"
    proof -
      from that have "k \<notin> set (map fst ?g)"
        by (simp add: map_of_eq_None_iff)
      then show ?thesis
        unfolding keys by (auto simp: group_values_def filter_empty_conv)
    qed
    have "vs = group_values cols (rs @ [r]) y"
      if "map_of (group_insert k ?v ?g) y = Some vs" for y vs
    proof (cases "y = k")
      case True
      with that have "vs = (case map_of ?g k of None \<Rightarrow> [] | Some vs \<Rightarrow> vs) @ [?v]"
        by (simp add: group_insert_lookup [OF srt])
      then show ?thesis
        using vals [of k] empty Some True
        by (auto simp: group_values_def split: option.splits)
    next
      case False
      with that have "map_of ?g y = Some vs"
        by (simp add: group_insert_lookup [OF srt])
      then show ?thesis
        using vals [of y] Some False by (simp add: group_values_def)
    qed
    then show ?thesis
      unfolding step
      using group_insert_sorted [OF srt, of k ?v] group_insert_keys [of k ?v ?g] keys Some
      by auto
  qed
qed

lemma try_map_total:
  "(\<And>x. x \<in> set xs \<Longrightarrow> f x = Inr (h x)) \<Longrightarrow> try_map f xs = Inr (map h xs)"
  by (induction xs) simp_all

lemma number_cell_cases: "number_or_missing r \<Longrightarrow> r = NA \<or> (\<exists>x. r = Num x)"
  by (cases r) (simp_all add: number_or_missing_def)

lemma sum_cells_numbers:
  assumes "list_all number_or_missing vs"
  shows "sum_cells vs = Inr (Num (sum_list (map num_or_zero vs)))"
proof -
  let ?ws = "filter (\<lambda>c. c \<noteq> NA) vs"
  have num: "\<exists>x. c = Num x" if "c \<in> set ?ws" for c
  proof -
    from assms that have "number_or_missing c"
      by (simp add: list_all_iff)
    from number_cell_cases [OF this] that show ?thesis
      by auto
  qed
  have 1: "list_all (\<lambda>c. kind_of c = Numeric) ?ws"
    unfolding list_all_iff
  proof
    fix c
    assume "c \<in> set ?ws"
    from num [OF this] show "kind_of c = Numeric"
      by auto
  qed
  have 2: "sum_list (map num_or_zero ?ws) = sum_list (map num_or_zero vs)"
    by (induction vs) (auto simp: num_or_zero_def num_of_def)
  have "Inf True \<notin> set ?ws" "Inf False \<notin> set ?ws"
    using num by blast+
  then have 3: "sum_numbers ?ws = Num (sum_list (map num_or_zero vs))"
    by (simp only: sum_numbers_def if_False 2)
  show ?thesis
    unfolding sum_cells_def Let_def if_P [OF 1] 3 ..
qed

lemma year_key_Some: "year_key c = Some y \<longleftrightarrow> c = Num y"
  by (cases c) (simp_all add: year_key_def)

lemma yearly_sums_groups:
  assumes "yearly_sums df = Inr ys"
  shows "map fst ys = map fst (group_by_year df)"
    and "\<And>y s. (y, s) \<in> set ys \<Longrightarrow> \<exists>vs. (y, vs) \<in> set (group_by_year df) \<and> sum_cells vs = Inr s"
proof -
  let ?f = "\<lambda>(y, vs). case sum_cells vs of Inl e \<Rightarrow> Inl e | Inr s \<Rightarrow> Inr (y, s)"
  from assms have tm: "try_map ?f (group_by_year df) = Inr ys"
    by (simp add: yearly_sums_def split: sum.splits)
  have f: "fst x = fst y" if "?f x = Inr y" for x y
    using that by (cases x) (auto split: sum.splits)
  from try_map_Inr [OF tm] have "list_all2 (\<lambda>x y. fst x = fst y) (group_by_year df) ys"
    by (rule list_all2_mono) (rule f)
  then have "map fst (group_by_year df) = map fst ys"
    by (induction rule: list_all2_induct) simp_all
  then show "map fst ys = map fst (group_by_year df)" ..
  fix y s
  assume "(y, s) \<in> set ys"
  from try_map_results [OF tm this] obtain x where x: "x \<in> set (group_by_year df)" "?f x = Inr (y, s)"
    by blast
  obtain y' vs where "x = (y', vs)"
    by (cases x)
  with x show "\<exists>vs. (y, vs) \<in> set (group_by_year df) \<and> sum_cells vs = Inr s"
    by (auto split: sum.splits)
qed

text \<open>
  Claim C6, as the code has it. Whenever the aggregate of a dataset with a year and a
  revenue column exists, its years are strictly ascending, they are exactly the years
  that occur in the dataset (a record without a year adds none), and each year is mapped
  to what \<^verbatim>\<open>sum\<close> makes of the revenue cells of the records of that year. When the
  revenue cells are numbers or missing (as after remote ingestion, unless a revenue is
  infinite), the aggregate exists and maps each year to the total revenue of the
  records of that year, a missing revenue counting as 0.
\<close>

theorem yearly_aggregate:
  assumes "col_year \<in> set (columns df)" and "col_box \<in> set (columns df)"
  shows "(\<forall>ys. yearly_sums df = Inr ys \<longrightarrow>
            sorted_wrt (<) (map fst ys)
          \<and> set (map fst ys) = {y. Num y \<in> set (column df col_year)}
          \<and> (\<forall>(y, s) \<in> set ys. sum_cells (group_values (columns df) (rows df) y) = Inr s))
    \<and> (list_all number_or_missing (column df col_box) \<longrightarrow>
         (\<exists>ys. yearly_sums df = Inr ys
            \<and> yearly df = Inr \<lparr>columns = [col_year, col_box], rows = map (\<lambda>(y, s). [Num y, s]) ys\<rparr>
            \<and> (\<forall>(y, s) \<in> set ys. s = Num (year_total df y))))"
proof -
  let ?cols = "columns df"
  let ?g = "group_by_year df"
  from group_fold [of ?cols "rows df"]
  have srt: "sorted_wrt (<) (map fst ?g)"
    and keys: "set (map fst ?g) = {y. \<exists>r \<in> set (rows df). year_key (cell_at ?cols r col_year) = Some y}"
    and vals: "\<And>y vs. map_of ?g y = Some vs \<Longrightarrow> vs = group_values ?cols (rows df) y"
    unfolding group_by_year_def by blast+
  have dist: "distinct (map fst ?g)"
    using srt by (simp add: strict_sorted_iff)
  have gv: "vs = group_values ?cols (rows df) y" if "(y, vs) \<in> set ?g" for y vs
    using vals map_of_is_SomeI [OF dist that] by simp
  have years: "set (map fst ?g) = {y. Num y \<in> set (column df col_year)}"
    unfolding keys by (force simp: year_key_Some column_def image_iff)
  have general: "sorted_wrt (<) (map fst ys)
      \<and> set (map fst ys) = {y. Num y \<in> set (column df col_year)}
      \<and> (\<forall>(y, s) \<in> set ys. sum_cells (group_values (columns df) (rows df) y) = Inr s)"
    if ys: "yearly_sums df = Inr ys" for ys
  proof (intro conjI)
    show "sorted_wrt (<) (map fst ys)"
      unfolding yearly_sums_groups(1) [OF ys] by (rule srt)
    show "set (map fst ys) = {y. Num y \<in> set (column df col_year)}"
      unfolding yearly_sums_groups(1) [OF ys] by (rule years)
    show "\<forall>(y, s) \<in> set ys. sum_cells (group_values (columns df) (rows df) y) = Inr s"
    proof (clarify)
      fix y s
      assume "(y, s) \<in> set ys"
      from yearly_sums_groups(2) [OF ys this] obtain vs where
        "(y, vs) \<in> set ?g" "sum_cells vs = Inr s"
        by blast
      with gv show "sum_cells (group_values (columns df) (rows df) y) = Inr s"
        by simp
    qed
  qed
  have numeric: "\<exists>ys. yearly_sums df = Inr ys
      \<and> yearly df = Inr \<lparr>columns = [col_year, col_box], rows = map (\<lambda>(y, s). [Num y, s]) ys\<rparr>
      \<and> (\<forall>(y, s) \<in> set ys. s = Num (year_total df y))"
    if box: "list_all number_or_missing (column df col_box)"
  proof -
    let ?h = "\<lambda>(y, vs). (y, Num (sum_list (map num_or_zero vs)))"
    let ?ys = "map ?h ?g"
    have nums: "list_all number_or_missing (group_values ?cols (rows df) y)" for y
      using box by (auto simp: list_all_iff group_values_def column_def)
    have total: "sum_list (map num_or_zero (group_values ?cols (rows df) y)) = year_total df y" for y
      by (simp add: group_values_def year_total_def year_key_Some comp_def)
    have req: "require_columns df [col_year, col_box] = Inr ()"
      using assms by (simp add: require_columns_def)
    have "try_map (\<lambda>(y, vs). case sum_cells vs of Inl e \<Rightarrow> Inl e | Inr s \<Rightarrow> Inr (y, s)) ?g = Inr ?ys"
    proof (rule try_map_total)
      fix x
      assume x: "x \<in> set ?g"
      obtain y vs where yv: "x = (y, vs)" by (cases x)
      from gv x have "vs = group_values ?cols (rows df) y"
        by (simp add: yv)
      with sum_cells_numbers [OF nums [of y]]
      show "(case x of (y, vs) \<Rightarrow> case sum_cells vs of Inl e \<Rightarrow> Inl e | Inr s \<Rightarrow> Inr (y, s)) = Inr (?h x)"
        by (simp add: yv)
    qed
    then have ys: "yearly_sums df = Inr ?ys"
      by (simp add: yearly_sums_def req)
    have v: "\<forall>(y, s) \<in> set ?ys. s = Num (year_total df y)"
    proof (clarify)
      fix y s
      assume "(y, s) \<in> set ?ys"
      then obtain vs where vs: "(y, vs) \<in> set ?g" "s = Num (sum_list (map num_or_zero vs))"
        by auto
      from gv [OF vs(1)] have "vs = group_values ?cols (rows df) y" .
      with vs(2) total [of y] show "s = Num (year_total df y)"
        by simp
    qed
    have yr: "yearly df = Inr \<lparr>columns = [col_year, col_box], rows = map (\<lambda>(y, s). [Num y, s]) ?ys\<rparr>"
      by (simp add: yearly_def ys)
    show ?thesis
      by (rule exI [of _ ?ys]) (intro conjI ys yr v)
  qed
  from general numeric show ?thesis
    by blast
qed

lemma two_sorted_cols: "col_year \<in> set (columns two_sorted)" "col_box \<in> set (columns two_sorted)"
  "list_all number_or_missing (column two_sorted col_box)"
  by (simp_all add: two_sorted_def expected_def column_def cell_at_def col_defs number_or_missing_def)

lemma two_sorted_sums: "yearly_sums two_sorted = Inr [(2022, Num 800), (2023, Num 1000)]"
  by (simp add: yearly_sums_def require_columns_def group_by_year_def group_step_def two_sorted_def
      expected_def cell_at_def col_defs year_key_def sum_cells_def sum_numbers_def num_of_def
      num_or_zero_def)

theorem yearly_aggregate_witness:
  "preprocess sample_env two_raw = Inr two_sorted
   \<and> yearly_sums two_sorted = Inr [(2022, Num 800), (2023, Num 1000)]
   \<and> yearly two_sorted =
       Inr \<lparr>columns = [col_year, col_box], rows = [[Num 2022, Num 800], [Num 2023, Num 1000]]\<rparr>
   \<and> year_total two_sorted 2022 = 800 \<and> year_total two_sorted 2023 = 1000
   \<and> sorted_wrt (<) (map fst [(2022 :: real, Num 800), (2023, Num 1000)])"
proof -
  note inst = yearly_aggregate [OF two_sorted_cols(1,2)]
  from inst two_sorted_cols(3) obtain ys where
    ys: "yearly_sums two_sorted = Inr ys"
    "yearly two_sorted = Inr \<lparr>columns = [col_year, col_box], rows = map (\<lambda>(y, s). [Num y, s]) ys\<rparr>"
    "\<forall>(y, s) \<in> set ys. s = Num (year_total two_sorted y)"
    by blast
  from ys(1) have eq: "ys = [(2022, Num 800), (2023, Num 1000)]"
    by (simp add: two_sorted_sums)
  from ys(3) have t: "year_total two_sorted 2022 = 800" "year_total two_sorted 2023 = 1000"
    by (simp_all add: eq)
  from inst ys(1) have "sorted_wrt (<) (map fst ys)"
    by blast
  then have "sorted_wrt (<) (map fst [(2022 :: real, Num 800), (2023, Num 1000)])"
    by (simp only: eq)
  with ys(2) t show ?thesis
    by (simp add: eq preprocess_two two_sorted_sums)
qed

text \<open>
  The claim as the specification states it fails: for a local snapshot whose revenue
  column is text, the aggregate maps a year to the concatenation of the cells, not to a
  sum of revenues.
\<close>

theorem yearly_text_concatenated:
  "read_local text_box_env ''text.csv'' = Inr text_box_raw
   \<and> preprocess text_box_env text_box_raw = Inr text_box_sorted
   \<and> yearly_sums text_box_sorted = Inr [(2023, Str ''1,000800'')]"
proof -
  have env: "to_datetime text_box_env = iso_to_datetime"
    "read_csv text_box_env ''text.csv'' = Inr text_box_raw"
    by (simp_all add: text_box_env_def sample_env_simps)
  have wf: "wf_frame text_box_raw" "columns text_box_raw = expected"
    by (simp_all add: text_box_raw_def wf_frame_def expected_def col_defs)
  have stamps: "iso_stamp ''2023-02-01'' = Some (midnight 2023 2 1)"
    by (simp add: iso_stamp_def iso_date_def digit_of_def days_in_month_def numeral_2_eq_2)
  have 1: "read_local text_box_env ''text.csv'' = Inr text_box_raw"
    by (simp add: read_local_def env map_headers_def mapper_def apply_alias_def
        select_columns_def text_box_raw_def expected_def cell_at_def col_defs)
  have 2: "preprocess text_box_env text_box_raw = Inr text_box_sorted"
    unfolding preprocess_result [OF wf]
    by (simp add: with_dates_def text_box_raw_def text_box_sorted_def out_columns_def
        sortable_def column_def cell_at_def expected_def col_defs row_key_def year_of_def
        parse_date_def env iso_to_datetime_def stamp_samples stamps one_zone_def zones_def
        naive_def aware_def midnight_def midnight_east8_def days_from_civil_def)
  have 3: "yearly_sums text_box_sorted = Inr [(2023, Str ''1,000800'')]"
    by (simp add: yearly_sums_def require_columns_def group_by_year_def group_step_def
        text_box_sorted_def expected_def cell_at_def col_defs year_key_def sum_cells_def
        text_of_def)
  from 1 2 3 show ?thesis
    by blast
qed

section \<open>The files of a run\<close>

lemma writes_weaken: "writes True ps m \<Longrightarrow> writes s ps m"
  unfolding writes_def by (fastforce split: sum.splits)

lemma writes_raise: "ps \<noteq> [] \<Longrightarrow> writes True ps (raise_io e)"
  by (simp add: writes_def raise_io_def)

lemma writes_raise_weak: "writes False ps (raise_io e)"
  by (simp add: writes_def raise_io_def)

lemma writes_emit: "writes True [p] (emit env p a)"
  by (auto simp: writes_def emit_def split: option.splits)

lemma writes_then:
  assumes "writes s1 ps1 m" and "\<And>x. writes s2 ps2 (f x)"
  shows "writes (s2 \<and> ps2 \<noteq> []) (ps1 @ ps2) (then_io m f)"
  unfolding writes_def
proof
  fix files
  from assms(1) obtain new1 where n1: "snd (m files) = files @ new1"
    and c1: "case fst (m files) of Inr x \<Rightarrow> map fst new1 = ps1
             | Inl e \<Rightarrow> prefix (map fst new1) ps1 \<and> (s1 \<longrightarrow> map fst new1 \<noteq> ps1)"
    unfolding writes_def by blast
  show "\<exists>new. snd (then_io m f files) = files @ new \<and>
        (case fst (then_io m f files) of
           Inr x \<Rightarrow> map fst new = ps1 @ ps2
         | Inl e \<Rightarrow> prefix (map fst new) (ps1 @ ps2)
             \<and> (s2 \<and> ps2 \<noteq> [] \<longrightarrow> map fst new \<noteq> ps1 @ ps2))"
  proof (cases "fst (m files)")
    case (Inl e)
    then have t: "then_io m f files = (Inl e, files @ new1)"
      using n1 by (cases "m files") (simp add: then_io_def)
    from c1 Inl have p: "prefix (map fst new1) ps1"
      by simp
    then have "length (map fst new1) \<le> length ps1"
      by (rule prefix_length_le)
    then have "ps2 \<noteq> [] \<Longrightarrow> map fst new1 \<noteq> ps1 @ ps2"
      by (metis length_append length_0_conv add_le_same_cancel1 le_zero_eq)
    with p show ?thesis
      by (intro exI [of _ new1]) (auto simp: t prefix_prefix)
  next
    case (Inr x)
    then have t: "then_io m f files = f x (files @ new1)"
      using n1 by (cases "m files") (simp add: then_io_def)
    from assms(2) [of x] obtain new2 where n2: "snd (f x (files @ new1)) = (files @ new1) @ new2"
      and c2: "case fst (f x (files @ new1)) of Inr y \<Rightarrow> map fst new2 = ps2
             | Inl e \<Rightarrow> prefix (map fst new2) ps2 \<and> (s2 \<longrightarrow> map fst new2 \<noteq> ps2)"
      unfolding writes_def by blast
    from c1 Inr have p1: "map fst new1 = ps1" by simp
    show ?thesis
      using n2 c2 p1 by (intro exI [of _ "new1 @ new2"]) (auto simp: t split: sum.splits)
  qed
qed

lemma writes_then_strict:
  assumes "writes s1 ps1 m" and "\<And>x. writes True ps2 (f x)" and "ps2 \<noteq> []"
  shows "writes True (ps1 @ ps2) (then_io m f)"
  using writes_then [OF assms(1,2)] assms(3) by simp

lemma writes_then_return:
  assumes "writes s ps m"
  shows "writes s ps (then_io m (\<lambda>x. return_io (g x)))"
  unfolding writes_def
proof
  fix files
  have "then_io m (\<lambda>x. return_io (g x)) files =
      (map_sum id g (fst (m files)), snd (m files))"
    by (cases "m files"; cases "fst (m files)") (auto simp: then_io_def return_io_def)
  then show "\<exists>new. snd (then_io m (\<lambda>x. return_io (g x)) files) = files @ new \<and>
        (case fst (then_io m (\<lambda>x. return_io (g x)) files) of
           Inr x \<Rightarrow> map fst new = ps
         | Inl e \<Rightarrow> prefix (map fst new) ps \<and> (s \<longrightarrow> map fst new \<noteq> ps))"
    using assms unfolding writes_def
    by (cases "fst (m files)") (auto split: sum.splits)
qed

lemma writes_export_rest:
  "writes False [data_path folder ts ''.json'', data_path folder ts ''.xlsx'']
     (then_io (emit env (data_path folder ts ''.json'') (to_json df)) (\<lambda>p2.
      then_io
        (case yearly df of
           Inl e \<Rightarrow>
             then_io (emit env (data_path folder ts ''.xlsx'') (XlsxFile [sheet_of sheet_data df]))
               (\<lambda>p. raise_io e)
         | Inr y \<Rightarrow>
             emit env (data_path folder ts ''.xlsx'')
               (XlsxFile [sheet_of sheet_data df, sheet_of sheet_yearly y]))
        (\<lambda>p3. return_io out)))"
proof -
  let ?j = "data_path folder ts ''.json''"
  let ?x = "data_path folder ts ''.xlsx''"
  let ?book = "case yearly df of
         Inl e \<Rightarrow> then_io (emit env ?x (XlsxFile [sheet_of sheet_data df])) (\<lambda>p. raise_io e)
       | Inr y \<Rightarrow> emit env ?x (XlsxFile [sheet_of sheet_data df, sheet_of sheet_yearly y])"
  have x: "writes False [?x] ?book"
  proof (cases "yearly df")
    case (Inl e)
    have "writes (False \<and> ([] :: string list) \<noteq> []) ([?x] @ [])
        (then_io (emit env ?x (XlsxFile [sheet_of sheet_data df])) (\<lambda>p. raise_io e))"
      by (rule writes_then) (rule writes_emit, rule writes_raise_weak)
    then show ?thesis by (simp add: Inl)
  next
    case (Inr y)
    from writes_weaken [OF writes_emit] show ?thesis by (simp add: Inr)
  qed
  have 3: "writes False [?x] (then_io ?book (\<lambda>p3. return_io out))"
    by (rule writes_then_return [OF x])
  have "writes (False \<and> [?x] \<noteq> []) ([?j] @ [?x])
       (then_io (emit env ?j (to_json df)) (\<lambda>p2. then_io ?book (\<lambda>p3. return_io out)))"
    by (rule writes_then) (rule writes_emit, rule 3)
  then show ?thesis
    by simp
qed

lemma writes_export_all:
  "writes False [data_path folder ts ''.csv'', data_path folder ts ''.json'', data_path folder ts ''.xlsx'']
     (export_all env df folder ts)"
proof -
  let ?c = "data_path folder ts ''.csv''"
  let ?j = "data_path folder ts ''.json''"
  let ?x = "data_path folder ts ''.xlsx''"
  let ?book = "case yearly df of
         Inl e \<Rightarrow> then_io (emit env ?x (XlsxFile [sheet_of sheet_data df])) (\<lambda>p. raise_io e)
       | Inr y \<Rightarrow> emit env ?x (XlsxFile [sheet_of sheet_data df, sheet_of sheet_yearly y])"
  have "writes (False \<and> [?j, ?x] \<noteq> []) ([?c] @ [?j, ?x])
       (then_io (emit env ?c (to_csv df)) (\<lambda>p1.
        then_io (emit env ?j (to_json df)) (\<lambda>p2. then_io ?book (\<lambda>p3. return_io (?c, ?j, ?x)))))"
    by (rule writes_then) (rule writes_emit, rule writes_export_rest)
  then show ?thesis
    by (simp add: export_all_def Let_def)
qed

lemma writes_chart_line:
  "writes True [data_path folder ts line_suffix] (chart_line_release_vs_boxoffice env df folder ts)"
  by (simp add: chart_line_release_vs_boxoffice_def Let_def writes_raise writes_emit split: sum.splits)

lemma writes_chart_pie:
  "writes True [data_path folder ts pie_suffix] (chart_pie_share_by_year env df folder ts)"
  by (simp add: chart_pie_share_by_year_def writes_raise writes_emit split: sum.splits)

lemma writes_chart_bar: "writes True [p] (chart_bar_top10 env df c p)"
  by (simp add: chart_bar_top10_def writes_raise writes_emit split: sum.splits)

lemma writes_chart_scatter:
  "writes True [data_path folder ts scatter_suffix] (chart_scatter_price_vs_boxoffice env df folder ts)"
  by (simp add: chart_scatter_price_vs_boxoffice_def Let_def writes_raise writes_emit split: sum.splits)

lemma writes_render_all:
  "writes True
     [data_path folder ts line_suffix, data_path folder ts pie_suffix,
      data_path folder ts price_suffix, data_path folder ts audience_suffix,
      data_path folder ts scatter_suffix]
     (render_all env df folder ts)"
proof -
  let ?p1 = "data_path folder ts line_suffix"
  let ?p2 = "data_path folder ts pie_suffix"
  let ?p3 = "data_path folder ts price_suffix"
  let ?p4 = "data_path folder ts audience_suffix"
  let ?p5 = "data_path folder ts scatter_suffix"
  let ?m5 = "\<lambda>c1 c2 c3 c4. then_io (chart_scatter_price_vs_boxoffice env df folder ts)
      (\<lambda>c5. return_io [c1, c2, c3, c4, c5])"
  let ?m4 = "\<lambda>c1 c2 c3. then_io (chart_bar_top10_by_audience env df folder ts) (?m5 c1 c2 c3)"
  let ?m3 = "\<lambda>c1 c2. then_io (chart_bar_top10_by_price env df folder ts) (?m4 c1 c2)"
  let ?m2 = "\<lambda>c1. then_io (chart_pie_share_by_year env df folder ts) (?m3 c1)"
  have 5: "writes True [?p5] (?m5 c1 c2 c3 c4)" for c1 c2 c3 c4 :: string
    by (rule writes_then_return [OF writes_chart_scatter])
  have 4: "writes True ([?p4] @ [?p5]) (?m4 c1 c2 c3)" for c1 c2 c3 :: string
    unfolding chart_bar_top10_by_audience_def
    by (rule writes_then_strict) (rule writes_chart_bar, rule 5, simp)
  have 3: "writes True ([?p3] @ [?p4, ?p5]) (?m3 c1 c2)" for c1 c2 :: string
    unfolding chart_bar_top10_by_price_def
    by (rule writes_then_strict) (rule writes_chart_bar, use 4 in simp, simp)
  have 2: "writes True ([?p2] @ [?p3, ?p4, ?p5]) (?m2 c1)" for c1 :: string
    by (rule writes_then_strict) (rule writes_chart_pie, use 3 in simp, simp)
  have "writes True ([?p1] @ [?p2, ?p3, ?p4, ?p5])
      (then_io (chart_line_release_vs_boxoffice env df folder ts) ?m2)"
    by (rule writes_then_strict) (rule writes_chart_line, use 2 in simp, simp)
  then show ?thesis
    by (simp add: render_all_def)
qed

lemma writes_run:
  "writes True (map (data_path folder ts)
       [''.csv'', ''.json'', ''.xlsx'', line_suffix, pie_suffix, price_suffix, audience_suffix,
        scatter_suffix])
     (then_io (export_all env df folder ts) (\<lambda>out.
        then_io (render_all env df folder ts) (\<lambda>charts. return_io (out, charts))))"
proof -
  have r: "writes True
     [data_path folder ts line_suffix, data_path folder ts pie_suffix,
      data_path folder ts price_suffix, data_path folder ts audience_suffix,
      data_path folder ts scatter_suffix]
     (then_io (render_all env df folder ts) (\<lambda>charts. return_io (out, charts)))"
    for out :: "string \<times> string \<times> string"
    by (rule writes_then_return [OF writes_render_all])
  have "writes True
     ([data_path folder ts ''.csv'', data_path folder ts ''.json'', data_path folder ts ''.xlsx'']
      @ [data_path folder ts line_suffix, data_path folder ts pie_suffix,
      data_path folder ts price_suffix, data_path folder ts audience_suffix,
      data_path folder ts scatter_suffix])
     (then_io (export_all env df folder ts) (\<lambda>out.
        then_io (render_all env df folder ts) (\<lambda>charts. return_io (out, charts))))"
    by (rule writes_then_strict) (rule writes_export_all, rule r, simp)
  then show ?thesis by simp
qed

lemma paths_nonempty: "artifact_paths env \<noteq> []"
  by (simp add: artifact_paths_def)

lemma main_load_failed:
  assumes "load_data env local_csv = Inl e"
  shows "main env local_csv =
     ((case print_all env [LoadFailed e, Hint] of None \<Rightarrow> Aborted e | Some e' \<Rightarrow> Crashed e'), [])"
  using assms by (simp add: main_def split: option.splits)

text \<open>
  Claim C2, as the code has it. A run whose loading step raises writes no file: the
  guard prints its two lines and returns, unless one of these \<^verbatim>\<open>print\<close> calls raises.
  Otherwise the artifacts are written one after another in the order of
  \<open>artifact_paths\<close> and nothing is rolled back: a run that ends with an exception has
  written a prefix of the eight paths, all eight only when the exception is that of a
  \<^verbatim>\<open>print\<close> of lines 222 to 227, and a run that completes has written all eight.
\<close>

theorem main_files_prefix:
  "(\<forall>e. load_data env local_csv = Inl e \<longrightarrow>
      snd (main env local_csv) = [] \<and>
      fst (main env local_csv) =
        (case print_all env [LoadFailed e, Hint] of None \<Rightarrow> Aborted e | Some e' \<Rightarrow> Crashed e'))
   \<and> (case main env local_csv of
        (Aborted e, files) \<Rightarrow> files = [] \<and> load_data env local_csv = Inl e
      | (Crashed e, files) \<Rightarrow>
          prefix (map fst files) (artifact_paths env) \<and>
          (map fst files = artifact_paths env \<longrightarrow>
             (\<exists>out charts. print_all env (report out charts) = Some e))
      | (Completed out charts, files) \<Rightarrow> map fst files = artifact_paths env)"
proof (rule conjI)
  show "\<forall>e. load_data env local_csv = Inl e \<longrightarrow>
      snd (main env local_csv) = [] \<and>
      fst (main env local_csv) =
        (case print_all env [LoadFailed e, Hint] of None \<Rightarrow> Aborted e | Some e' \<Rightarrow> Crashed e')"
    by (simp add: main_load_failed)
next
  note ne = paths_nonempty [of env]
  show "case main env local_csv of
        (Aborted e, files) \<Rightarrow> files = [] \<and> load_data env local_csv = Inl e
      | (Crashed e, files) \<Rightarrow>
          prefix (map fst files) (artifact_paths env) \<and>
          (map fst files = artifact_paths env \<longrightarrow>
             (\<exists>out charts. print_all env (report out charts) = Some e))
      | (Completed out charts, files) \<Rightarrow> map fst files = artifact_paths env"
  proof (cases "load_data env local_csv")
    case (Inl e)
    with ne show ?thesis
      by (cases "print_all env [LoadFailed e, Hint]") (auto simp: main_load_failed)
  next
    case (Inr df0)
    show ?thesis
    proof (cases "preprocess env df0")
      case (Inl e)
      with Inr ne show ?thesis by (auto simp: main_def)
    next
      case df: (Inr df)
      let ?folder = "''movie_income_'' @ now env"
      show ?thesis
      proof (cases "emit_error env ?folder Directory")
        case (Some e)
        with Inr df ne show ?thesis by (auto simp: main_def)
      next
        case None
        let ?m = "then_io (export_all env df ?folder (now env)) (\<lambda>out.
          then_io (render_all env df ?folder (now env)) (\<lambda>charts. return_io (out, charts)))"
        have w: "writes True (artifact_paths env) ?m"
          unfolding artifact_paths_def by (rule writes_run)
        from w [unfolded writes_def, THEN spec, of "[]"] obtain new where
          new0: "snd (?m []) = [] @ new"
          and c: "case fst (?m []) of Inr x \<Rightarrow> map fst new = artifact_paths env
               | Inl e \<Rightarrow> prefix (map fst new) (artifact_paths env)
                   \<and> (True \<longrightarrow> map fst new \<noteq> artifact_paths env)"
          by blast
        from new0 have new: "snd (?m []) = new" by simp
        have m: "main env local_csv =
            (case ?m [] of (Inl e, files) \<Rightarrow> (Crashed e, files)
             | (Inr (out, charts), files) \<Rightarrow>
                 (case print_all env (report out charts) of
                    Some e \<Rightarrow> (Crashed e, files)
                  | None \<Rightarrow> (Completed out charts, files)))"
          using Inr df None by (simp add: main_def Let_def)
        show ?thesis
        proof (cases "fst (?m [])")
          case (Inl e)
          then have "?m [] = (Inl e, new)"
            using new by (cases "?m []") simp
          with c Inl show ?thesis
            by (simp add: m)
        next
          case (Inr x)
          then obtain out charts where r: "fst (?m []) = Inr (out, charts)"
            by (cases x) simp
          then have run: "?m [] = (Inr (out, charts), new)"
            using new by (cases "?m []") simp
          from c r have all: "map fst new = artifact_paths env"
            by simp
          show ?thesis
          proof (cases "print_all env (report out charts)")
            case None
            with run all show ?thesis
              by (simp add: m)
          next
            case (Some e)
            then have "\<exists>out charts. print_all env (report out charts) = Some e"
              by blast
            with Some run all show ?thesis
              by (simp add: m)
          qed
        qed
      qed
    qed
  qed
qed

lemma two_sorted_yearly:
  "yearly two_sorted = Inr \<lparr>columns = [col_year, col_box], rows = [[Num 2022, Num 800], [Num 2023, Num 1000]]\<rparr>"
  by (simp add: yearly_def two_sorted_sums)

lemma emit_ok: "emit_error env p a = None \<Longrightarrow> emit env p a files = (Inr p, files @ [(p, a)])"
  by (simp add: emit_def)

lemma export_sample:
  assumes "\<And>p a. emit_error env p a = None"
  shows "fst (export_all env two_sorted folder ts files) =
     Inr (data_path folder ts ''.csv'', data_path folder ts ''.json'', data_path folder ts ''.xlsx'')"
  by (simp add: export_all_def Let_def then_io_def emit_ok assms two_sorted_yearly return_io_def)

lemma two_sorted_columns:
  "column two_sorted col_box = [Num 800, Num 1000]"
  "column two_sorted col_price = [Num 50, Num 45.5]"
  "column two_sorted col_audience = [Num 90, Num 120]"
  "column two_sorted col_name = [Str ''B'', Str ''A'']"
  "column two_sorted col_parsed = [TS (midnight 2022 12 25), TS (midnight 2023 1 10)]"
  by (simp_all add: two_sorted_def column_def cell_at_def expected_def col_defs)

lemma two_sorted_has:
  "set (columns two_sorted) = {col_rank, col_name, col_release, col_box, col_price, col_audience,
     col_parsed, col_year}"
  by (auto simp: two_sorted_def expected_def)

lemma line_sample:
  assumes "\<And>p a. emit_error env p a = None"
  shows "fst (chart_line_release_vs_boxoffice env two_sorted folder ts files) =
     Inr (data_path folder ts line_suffix)"
  by (simp add: chart_line_release_vs_boxoffice_def require_columns_def two_sorted_has Let_def
      emit_ok assms)

lemma pie_sample:
  assumes "\<And>p a. emit_error env p a = None"
  shows "fst (chart_pie_share_by_year env two_sorted folder ts files) =
     Inr (data_path folder ts pie_suffix)"
  by (simp add: chart_pie_share_by_year_def two_sorted_sums emit_ok assms)

lemma nlargest_ok:
  assumes "c \<in> set (columns df)" and "numeric_dtype (column df c)"
  shows "nlargest n c df =
     Inr (df\<lparr>rows := take n (sort_key (\<lambda>r. largest_key (cell_at (columns df) r c)) (rows df))\<rparr>)"
  using assms by (simp add: nlargest_def require_columns_def)

lemma nlargest_rows:
  assumes "nlargest n c df = Inr t"
  shows "columns t = columns df" and "set (rows t) \<subseteq> set (rows df)"
proof -
  from assms have t: "t = df\<lparr>rows := take n (sort_key (\<lambda>r. largest_key (cell_at (columns df) r c)) (rows df))\<rparr>"
    by (auto simp: nlargest_def split: sum.splits if_splits)
  show "columns t = columns df"
    by (simp add: t)
  show "set (rows t) \<subseteq> set (rows df)"
    using set_take_subset [of n "sort_key (\<lambda>r. largest_key (cell_at (columns df) r c)) (rows df)"]
    by (simp add: t)
qed

lemma bar_ok:
  assumes "col_name \<in> set (columns df)" and "c \<in> set (columns df)"
    and "numeric_dtype (column df c)" and "\<And>a. emit_error env p a = None"
  shows "fst (chart_bar_top10 env df c p files) = Inr p"
  using assms
  by (simp add: chart_bar_top10_def nlargest_ok select_columns_def emit_ok)

lemma scatter_ok:
  assumes "col_name \<in> set (columns df)" and "col_price \<in> set (columns df)"
    and "col_box \<in> set (columns df)"
    and "numeric_dtype (column df col_price)" and "numeric_dtype (column df col_box)"
    and "\<And>r. r \<in> set (rows df) \<Longrightarrow> kind_of (cell_at (columns df) r col_name) \<noteq> Container"
    and "\<And>a. emit_error env (data_path folder ts scatter_suffix) a = None"
  shows "fst (chart_scatter_price_vs_boxoffice env df folder ts files) =
    Inr (data_path folder ts scatter_suffix)"
proof -
  obtain t1 t2 where t: "nlargest 5 col_box df = Inr t1" "nlargest 5 col_price df = Inr t2"
    using assms(2-5) by (simp add: nlargest_ok)
  have "\<not> list_ex (\<lambda>r. kind_of (cell_at (columns df) r col_name) = Container) (rows t1 @ rows t2)"
    using nlargest_rows(2) [OF t(1)] nlargest_rows(2) [OF t(2)] assms(6)
    by (auto simp: list_ex_iff)
  then show ?thesis
    using assms(1-3,7)
    by (simp add: chart_scatter_price_vs_boxoffice_def require_columns_def t Let_def emit_ok)
qed

lemma two_sorted_numeric:
  "numeric_dtype (column two_sorted col_box)" "numeric_dtype (column two_sorted col_price)"
  "numeric_dtype (column two_sorted col_audience)"
  by (simp_all add: two_sorted_columns numeric_dtype_def is_float_def)

lemma two_sorted_names:
  "r \<in> set (rows two_sorted) \<Longrightarrow> kind_of (cell_at (columns two_sorted) r col_name) \<noteq> Container"
  by (auto simp: two_sorted_def cell_at_def expected_def col_defs)

lemma render_sample:
  assumes e: "\<And>p a. emit_error env p a = None"
  shows "fst (render_all env two_sorted folder ts files) =
     Inr [data_path folder ts line_suffix, data_path folder ts pie_suffix,
          data_path folder ts price_suffix, data_path folder ts audience_suffix,
          data_path folder ts scatter_suffix]"
proof -
  have in_cols: "col_name \<in> set (columns two_sorted)" "col_price \<in> set (columns two_sorted)"
    "col_box \<in> set (columns two_sorted)" "col_audience \<in> set (columns two_sorted)"
    by (simp_all add: two_sorted_has)
  have step: "then_io m f files = f x (snd (m files))" if "fst (m files) = Inr x"
    for m :: "string io" and f :: "string \<Rightarrow> string list io" and files x
    using that by (cases "m files") (simp add: then_io_def)
  show ?thesis
    unfolding render_all_def
    by (simp add: step [OF line_sample [OF e]] step [OF pie_sample [OF e]]
        step [OF bar_ok [OF in_cols(1,2) two_sorted_numeric(2) e]]
        step [OF bar_ok [OF in_cols(1,4) two_sorted_numeric(3) e]]
        step [OF scatter_ok [OF in_cols(1,2,3) two_sorted_numeric(2,1) two_sorted_names e]]
        chart_bar_top10_by_price_def chart_bar_top10_by_audience_def return_io_def)
qed

lemma main_two_sorted:
  assumes load: "load_data env local_csv = Inr df0" and pre: "preprocess env df0 = Inr two_sorted"
    and e: "\<And>p a. emit_error env p a = None"
  defines "folder \<equiv> ''movie_income_'' @ now env"
  defines "out \<equiv> (data_path folder (now env) ''.csv'', data_path folder (now env) ''.json'',
      data_path folder (now env) ''.xlsx'')"
  defines "charts \<equiv> map (data_path folder (now env))
      [line_suffix, pie_suffix, price_suffix, audience_suffix, scatter_suffix]"
  shows "\<exists>files. map fst files = artifact_paths env \<and>
     main env local_csv =
       (case print_all env (report out charts) of
          Some e \<Rightarrow> (Crashed e, files)
        | None \<Rightarrow> (Completed out charts, files))"
proof -
  let ?m = "then_io (export_all env two_sorted folder (now env)) (\<lambda>out.
      then_io (render_all env two_sorted folder (now env)) (\<lambda>charts. return_io (out, charts)))"
  obtain f1 where 1: "export_all env two_sorted folder (now env) [] = (Inr out, f1)"
    using export_sample [OF e, of folder "now env" "[]"]
    by (cases "export_all env two_sorted folder (now env) []") (auto simp: out_def)
  obtain f2 where 2: "render_all env two_sorted folder (now env) f1 = (Inr charts, f2)"
    using render_sample [OF e, of folder "now env" f1]
    by (cases "render_all env two_sorted folder (now env) f1") (auto simp: charts_def)
  have run: "?m [] = (Inr (out, charts), f2)"
    by (simp add: then_io_def 1 2 return_io_def)
  have "writes True (artifact_paths env) ?m"
    unfolding artifact_paths_def folder_def by (rule writes_run)
  from this [unfolded writes_def, THEN spec, of "[]"] have paths: "map fst f2 = artifact_paths env"
    by (simp add: run)
  have m: "main env local_csv =
       (case ?m [] of
          (Inl e, files) \<Rightarrow> (Crashed e, files)
        | (Inr (out, charts), files) \<Rightarrow>
            (case print_all env (report out charts) of
               Some e \<Rightarrow> (Crashed e, files)
             | None \<Rightarrow> (Completed out charts, files)))"
    by (simp add: main_def load pre e Let_def folder_def)
  have "main env local_csv =
       (case print_all env (report out charts) of
          Some e \<Rightarrow> (Crashed e, f2)
        | None \<Rightarrow> (Completed out charts, f2))"
    unfolding m run by simp
  with paths show ?thesis
    by blast
qed

lemma load_offline: "load_data offline_env None = Inl FetchError"
  by (simp add: load_data_def fetch_online_def offline_env_def)

lemma muted_env_simps:
  "http_json muted_env = Inr sample_body" "float_of_str muted_env = decimal_of_str"
  "float_of_int muted_env = (\<lambda>n. None)" "store_int muted_env = (\<lambda>c n. Num (of_int n))"
  "to_datetime muted_env = iso_to_datetime" "now muted_env = ''20240101_120000''"
  "emit_error muted_env = (\<lambda>p a. None)"
  "print_error muted_env =
     (\<lambda>m. if m = ExportHeading \<or> m = ChartHeading then Some UnicodeEncodeError else None)"
  by (simp_all add: muted_env_def sample_env_simps)

lemma load_muted: "load_data muted_env None = Inr two_raw"
  by (simp add: load_data_def fetch_online_def muted_env_simps sample_body_def extract_table_def
      py_get_def py_or_def dict_get_def entry_A_def entry_B_def to_row_def num_field_def
      int_to_float_def DataFrame_def is_empty_def two_raw_def expected_def)

lemma preprocess_muted: "preprocess muted_env two_raw = Inr two_sorted"
  unfolding preprocess_result [OF two_raw_wf]
  by (simp add: with_dates_def two_raw_def two_sorted_def out_columns_def sortable_def column_def
      cell_at_def expected_def col_defs row_key_def parse_date_def muted_env_simps
      iso_to_datetime_def stamp_samples year_of_def one_zone_def zones_def naive_def aware_def
      midnight_simps)

theorem main_files_prefix_witness:
  "main offline_env None = (Aborted FetchError, [])
   \<and> fst (main sample_env None) =
     Completed (data_path ''movie_income_20240101_120000'' ''20240101_120000'' ''.csv'',
                data_path ''movie_income_20240101_120000'' ''20240101_120000'' ''.json'',
                data_path ''movie_income_20240101_120000'' ''20240101_120000'' ''.xlsx'')
       (map (data_path ''movie_income_20240101_120000'' ''20240101_120000'')
          [line_suffix, pie_suffix, price_suffix, audience_suffix, scatter_suffix])
   \<and> map fst (snd (main sample_env None)) = artifact_paths sample_env
   \<and> fst (main muted_env None) = Crashed UnicodeEncodeError
   \<and> map fst (snd (main muted_env None)) = artifact_paths muted_env"
proof -
  have quiet: "print_all offline_env [LoadFailed FetchError, Hint] = None"
    by (simp add: offline_env_def sample_env_simps)
  from main_files_prefix [of offline_env None] load_offline quiet
  have "snd (main offline_env None) = [] \<and> fst (main offline_env None) = Aborted FetchError"
    by simp
  then have 1: "main offline_env None = (Aborted FetchError, [])"
    by (simp add: prod_eq_iff)
  have silent: "print_all sample_env ms = None" for ms
    by (induction ms) (simp_all add: sample_env_simps)
  from main_two_sorted [of sample_env None two_raw] preprocess_two
  have 2: "fst (main sample_env None) =
     Completed (data_path ''movie_income_20240101_120000'' ''20240101_120000'' ''.csv'',
                data_path ''movie_income_20240101_120000'' ''20240101_120000'' ''.json'',
                data_path ''movie_income_20240101_120000'' ''20240101_120000'' ''.xlsx'')
       (map (data_path ''movie_income_20240101_120000'' ''20240101_120000'')
          [line_suffix, pie_suffix, price_suffix, audience_suffix, scatter_suffix])"
    by (auto simp: load_data_def fetch_sample sample_env_simps silent)
  from main_files_prefix [of sample_env None] 2
  have 3: "map fst (snd (main sample_env None)) = artifact_paths sample_env"
    by (cases "main sample_env None") simp
  have loud: "print_all muted_env (report out charts) = Some UnicodeEncodeError" for out charts
    by (cases out) (simp add: report_def muted_env_simps)
  from main_two_sorted [of muted_env None two_raw] load_muted preprocess_muted
  have 4: "fst (main muted_env None) = Crashed UnicodeEncodeError"
    "map fst (snd (main muted_env None)) = artifact_paths muted_env"
    by (auto simp: muted_env_simps loud)
  from 1 2 3 4 show ?thesis
    by blast
qed

lemma snapshot_env_simps:
  "to_datetime snapshot_env = iso_to_datetime"
  "now snapshot_env = ''20240101_120000''"
  "emit_error snapshot_env = (\<lambda>p a. None)"
  "path_exists snapshot_env ''snapshot.csv''"
  "read_csv snapshot_env ''snapshot.csv'' = Inr text_price_frame"
  by (simp_all add: snapshot_env_def sample_env_simps)

lemma text_price_wf: "wf_frame text_price_frame" "columns text_price_frame = expected"
  by (simp_all add: text_price_frame_def wf_frame_def expected_def col_defs)

lemma load_snapshot: "load_data snapshot_env (Some ''snapshot.csv'') = Inr text_price_frame"
  by (simp add: load_data_def use_local_def snapshot_env_simps read_local_def map_headers_def
      mapper_def apply_alias_def select_columns_def text_price_frame_def expected_def cell_at_def
      col_defs)

lemma parse_snapshot:
  "parse_date snapshot_env (Str ''2023-01-10'') = TS (midnight 2023 1 10)"
  "parse_date snapshot_env (Str ''2022-12-25'') = TS (midnight 2022 12 25)"
  by (simp_all add: parse_date_def snapshot_env_simps iso_to_datetime_def stamp_samples)

lemma preprocess_snapshot: "preprocess snapshot_env text_price_frame = Inr text_price_sorted"
  unfolding preprocess_result [OF text_price_wf]
  by (simp add: with_dates_def text_price_frame_def text_price_sorted_def out_columns_def
      sortable_def column_def cell_at_def expected_def col_defs row_key_def parse_snapshot
      year_of_def one_zone_def zones_def naive_def aware_def midnight_simps)

lemma text_price_sorted_has:
  "set (columns text_price_sorted) = {col_rank, col_name, col_release, col_box, col_price,
     col_audience, col_parsed, col_year}"
  by (auto simp: text_price_sorted_def expected_def)

lemma text_price_sums: "yearly_sums text_price_sorted = Inr [(2022, Num 800), (2023, Num 1000)]"
  by (simp add: yearly_sums_def require_columns_def group_by_year_def group_step_def
      text_price_sorted_def expected_def cell_at_def col_defs year_key_def sum_cells_def
      sum_numbers_def num_or_zero_def num_of_def)

lemma text_price_column:
  "column text_price_sorted col_price = [Str ''50'', Str ''unknown'']"
  by (simp add: text_price_sorted_def column_def cell_at_def expected_def col_defs)

lemma export_paths:
  assumes "\<And>p a. emit_error env p a = None" and "yearly df = Inr y"
  shows "\<exists>new. export_all env df folder ts files =
      (Inr (data_path folder ts ''.csv'', data_path folder ts ''.json'', data_path folder ts ''.xlsx''),
       files @ new)
    \<and> map fst new = [data_path folder ts ''.csv'', data_path folder ts ''.json'', data_path folder ts ''.xlsx'']"
  by (simp add: export_all_def Let_def then_io_def emit_ok assms return_io_def)

lemma line_paths:
  assumes "\<And>p a. emit_error env p a = None"
    and "{col_parsed, col_box, col_name} \<subseteq> set (columns df)"
  shows "\<exists>a. chart_line_release_vs_boxoffice env df folder ts files =
      (Inr (data_path folder ts line_suffix), files @ [(data_path folder ts line_suffix, a)])"
  using assms
  by (simp add: chart_line_release_vs_boxoffice_def require_columns_def Let_def emit_ok)

lemma pie_paths:
  assumes "\<And>p a. emit_error env p a = None" and "yearly_sums df = Inr ys"
  shows "\<exists>a. chart_pie_share_by_year env df folder ts files =
      (Inr (data_path folder ts pie_suffix), files @ [(data_path folder ts pie_suffix, a)])"
  using assms by (simp add: chart_pie_share_by_year_def emit_ok)

lemma bar_dtype_error:
  assumes "c \<in> set (columns df)" and "\<not> numeric_dtype (column df c)"
  shows "chart_bar_top10 env df c p files = (Inl (TypeError_dtype c), files)"
  using assms by (simp add: chart_bar_top10_def nlargest_def require_columns_def raise_io_def)

text \<open>
  The claim as stated fails: on the snapshot with text in the ticket-price column the
  three data files and the first two charts are written, then \<^verbatim>\<open>nlargest\<close> raises in
  the third chart and the run ends with five of the eight artifacts.
\<close>

theorem main_partial_output:
  "fst (main snapshot_env (Some ''snapshot.csv'')) = Crashed (TypeError_dtype col_price)
   \<and> map fst (snd (main snapshot_env (Some ''snapshot.csv''))) = take 5 (artifact_paths snapshot_env)"
proof -
  let ?F = "''movie_income_20240101_120000''" and ?T = "''20240101_120000''"
  let ?df = text_price_sorted
  have e: "\<And>p a. emit_error snapshot_env p a = None"
    by (simp add: snapshot_env_simps)
  have y: "yearly ?df = Inr \<lparr>columns = [col_year, col_box],
      rows = map (\<lambda>(y, s). [Num y, s]) [(2022, Num 800), (2023, Num 1000)]\<rparr>"
    by (simp add: yearly_def text_price_sums)
  from export_paths [OF e y, of ?F ?T "[]"] obtain f1 where
    1: "export_all snapshot_env ?df ?F ?T [] =
        (Inr (data_path ?F ?T ''.csv'', data_path ?F ?T ''.json'', data_path ?F ?T ''.xlsx''), f1)"
      "map fst f1 = [data_path ?F ?T ''.csv'', data_path ?F ?T ''.json'', data_path ?F ?T ''.xlsx'']"
    by auto
  from line_paths [OF e, of ?df ?F ?T f1] obtain a2 where
    2: "chart_line_release_vs_boxoffice snapshot_env ?df ?F ?T f1 =
        (Inr (data_path ?F ?T line_suffix), f1 @ [(data_path ?F ?T line_suffix, a2)])"
    by (auto simp: text_price_sorted_has)
  from pie_paths [OF e text_price_sums, of ?F ?T "f1 @ [(data_path ?F ?T line_suffix, a2)]"]
  obtain a3 where
    3: "chart_pie_share_by_year snapshot_env ?df ?F ?T (f1 @ [(data_path ?F ?T line_suffix, a2)]) =
        (Inr (data_path ?F ?T pie_suffix),
         f1 @ [(data_path ?F ?T line_suffix, a2)] @ [(data_path ?F ?T pie_suffix, a3)])"
    by auto
  have 4: "chart_bar_top10_by_price snapshot_env ?df ?F ?T files = (Inl (TypeError_dtype col_price), files)"
    for files
    unfolding chart_bar_top10_by_price_def
    by (rule bar_dtype_error)
      (simp_all add: text_price_sorted_has text_price_column numeric_dtype_def is_float_def
        is_bool_def)
  have r: "render_all snapshot_env ?df ?F ?T f1 =
      (Inl (TypeError_dtype col_price),
       f1 @ [(data_path ?F ?T line_suffix, a2)] @ [(data_path ?F ?T pie_suffix, a3)])"
    by (simp add: render_all_def then_io_def 2 3 4)
  have m: "main snapshot_env (Some ''snapshot.csv'') =
      (Crashed (TypeError_dtype col_price),
       f1 @ [(data_path ?F ?T line_suffix, a2)] @ [(data_path ?F ?T pie_suffix, a3)])"
    by (simp add: main_def load_snapshot preprocess_snapshot snapshot_env_simps Let_def then_io_def
        1 r)
  show ?thesis
    by (simp add: m 1(2) artifact_paths_def snapshot_env_simps)
qed

section \<open>The empty response\<close>














section \<open>Charts of an empty dataset\<close>

lemma preprocess_no_rows:
  assumes "wf_frame df0" and "columns df0 = expected" and "rows df0 = []"
  shows "preprocess env df0 = Inr \<lparr>columns = out_columns, rows = []\<rparr>"
  unfolding preprocess_result [OF assms(1,2)]
  by (simp add: column_def assms(3) one_zone_def zones_def sortable_def with_dates_def)

lemma charts_no_rows:
  fixes df :: frame
  assumes "df = \<lparr>columns = out_columns, rows = []\<rparr>"
  shows "chart_line_release_vs_boxoffice env df folder ts =
      emit env (data_path folder ts line_suffix) (PngFile (LinePlot [] []))"
    and "chart_pie_share_by_year env df folder ts =
      emit env (data_path folder ts pie_suffix) (PngFile (PiePlot [] []))"
    and "chart_bar_top10_by_price env df folder ts = raise_io (TypeError_dtype col_price)"
    and "chart_bar_top10_by_audience env df folder ts = raise_io (TypeError_dtype col_audience)"
    and "chart_scatter_price_vs_boxoffice env df folder ts = raise_io (TypeError_dtype col_box)"
proof -
  have cols: "col_parsed \<in> set (columns df)" "col_box \<in> set (columns df)"
    "col_name \<in> set (columns df)" "col_year \<in> set (columns df)" "col_price \<in> set (columns df)"
    "col_audience \<in> set (columns df)"
    by (simp_all add: assms out_columns_def expected_def)
  have rows: "rows df = []"
    by (simp add: assms)
  have empty: "column df c = []" for c
    by (simp add: column_def rows)
  have nl: "nlargest n c df = Inl (TypeError_dtype c)" if "c \<in> set (columns df)" for n c
    using that by (simp add: nlargest_def require_columns_def empty numeric_dtype_def)
  show "chart_line_release_vs_boxoffice env df folder ts =
      emit env (data_path folder ts line_suffix) (PngFile (LinePlot [] []))"
    using cols by (simp add: chart_line_release_vs_boxoffice_def require_columns_def empty)
  show "chart_pie_share_by_year env df folder ts =
      emit env (data_path folder ts pie_suffix) (PngFile (PiePlot [] []))"
    using cols
    by (simp add: chart_pie_share_by_year_def yearly_sums_def require_columns_def
        group_by_year_def rows)
  show "chart_bar_top10_by_price env df folder ts = raise_io (TypeError_dtype col_price)"
    by (simp add: chart_bar_top10_by_price_def chart_bar_top10_def nl cols)
  show "chart_bar_top10_by_audience env df folder ts = raise_io (TypeError_dtype col_audience)"
    by (simp add: chart_bar_top10_by_audience_def chart_bar_top10_def nl cols)
  show "chart_scatter_price_vs_boxoffice env df folder ts = raise_io (TypeError_dtype col_box)"
    using cols by (simp add: chart_scatter_price_vs_boxoffice_def require_columns_def nl)
qed

text \<open>
  Claim C5, as the code has it. The code has no error for an empty chart input and no
  chart function looks whether the dataset is empty. The only empty dataset that a run
  can reach is that of a local snapshot without records; normalisation returns it with
  its eight columns and no rows. On it the line chart and the pie chart hand an empty
  plot to the plotting library and save what it draws, and the two bar charts and the
  scatter chart raise the \<^verbatim>\<open>TypeError\<close> of \<^verbatim>\<open>nlargest\<close> on a column that is not numeric,
  before an image is saved.
\<close>

theorem charts_on_empty_dataset:
  assumes "read_local env p = Inr df0" and "rows df0 = []"
  shows "\<exists>df. preprocess env df0 = Inr df \<and> columns df = out_columns \<and> rows df = []
    \<and> chart_line_release_vs_boxoffice env df folder ts =
        emit env (data_path folder ts line_suffix) (PngFile (LinePlot [] []))
    \<and> chart_pie_share_by_year env df folder ts =
        emit env (data_path folder ts pie_suffix) (PngFile (PiePlot [] []))
    \<and> chart_bar_top10_by_price env df folder ts = raise_io (TypeError_dtype col_price)
    \<and> chart_bar_top10_by_audience env df folder ts = raise_io (TypeError_dtype col_audience)
    \<and> chart_scatter_price_vs_boxoffice env df folder ts = raise_io (TypeError_dtype col_box)"
proof -
  let ?df = "\<lparr>columns = out_columns, rows = []\<rparr>"
  have "preprocess env df0 = Inr ?df"
    using read_local_wf [OF assms(1)] assms(2) by (rule preprocess_no_rows)
  then show ?thesis
    using charts_no_rows [of ?df env folder ts] by simp
qed

lemma read_header_only:
  "read_local header_only_env ''empty.csv'' = Inr \<lparr>columns = expected, rows = []\<rparr>"
  by (simp add: read_local_def header_only_env_def map_headers_def mapper_def apply_alias_def
      select_columns_def expected_def col_defs)

theorem charts_on_empty_dataset_witness:
  "preprocess header_only_env \<lparr>columns = expected, rows = []\<rparr> =
     Inr \<lparr>columns = out_columns, rows = []\<rparr>
   \<and> chart_pie_share_by_year header_only_env \<lparr>columns = out_columns, rows = []\<rparr> ''out'' ''t'' [] =
     (Inr (data_path ''out'' ''t'' pie_suffix),
      [(data_path ''out'' ''t'' pie_suffix, PngFile (PiePlot [] []))])
   \<and> chart_bar_top10_by_price header_only_env \<lparr>columns = out_columns, rows = []\<rparr> ''out'' ''t'' [] =
     (Inl (TypeError_dtype col_price), [])
   \<and> chart_bar_top10_by_audience header_only_env \<lparr>columns = out_columns, rows = []\<rparr> ''out'' ''t'' [] =
     (Inl (TypeError_dtype col_audience), [])
   \<and> chart_scatter_price_vs_boxoffice header_only_env \<lparr>columns = out_columns, rows = []\<rparr> ''out'' ''t'' [] =
     (Inl (TypeError_dtype col_box), [])"
proof -
  from charts_on_empty_dataset [OF read_header_only, of "''out''" "''t''"]
  obtain df where df: "preprocess header_only_env \<lparr>columns = expected, rows = []\<rparr> = Inr df"
    "columns df = out_columns" "rows df = []"
    and charts:
      "chart_pie_share_by_year header_only_env df ''out'' ''t'' =
        emit header_only_env (data_path ''out'' ''t'' pie_suffix) (PngFile (PiePlot [] []))"
      "chart_bar_top10_by_price header_only_env df ''out'' ''t'' = raise_io (TypeError_dtype col_price)"
      "chart_bar_top10_by_audience header_only_env df ''out'' ''t'' =
        raise_io (TypeError_dtype col_audience)"
      "chart_scatter_price_vs_boxoffice header_only_env df ''out'' ''t'' =
        raise_io (TypeError_dtype col_box)"
    by auto
  from df(2,3) have eq: "df = \<lparr>columns = out_columns, rows = []\<rparr>"
    by (cases df) simp
  have e: "emit_error header_only_env = (\<lambda>p a. None)"
    by (simp add: header_only_env_def sample_env_simps)
  from df(1) charts show ?thesis
    unfolding eq by (simp add: emit_def e raise_io_def)
qed

text \<open>
  The claim as the specification states it fails: on the empty dataset the line chart
  raises nothing and writes the image of an empty plot.
\<close>

theorem empty_line_chart_is_drawn:
  "read_local header_only_env ''empty.csv'' = Inr \<lparr>columns = expected, rows = []\<rparr>
   \<and> preprocess header_only_env \<lparr>columns = expected, rows = []\<rparr> =
       Inr \<lparr>columns = out_columns, rows = []\<rparr>
   \<and> chart_line_release_vs_boxoffice header_only_env \<lparr>columns = out_columns, rows = []\<rparr>
       ''out'' ''t'' []
     = (Inr (data_path ''out'' ''t'' line_suffix),
        [(data_path ''out'' ''t'' line_suffix, PngFile (LinePlot [] []))])"
proof -
  have wf: "wf_frame \<lparr>columns = expected, rows = []\<rparr>"
    "columns \<lparr>columns = expected, rows = []\<rparr> = expected"
    "rows \<lparr>columns = expected, rows = []\<rparr> = []"
    by (simp_all add: wf_frame_def expected_def col_defs)
  have e: "emit_error header_only_env = (\<lambda>p a. None)"
    by (simp add: header_only_env_def sample_env_simps)
  have "chart_line_release_vs_boxoffice header_only_env \<lparr>columns = out_columns, rows = []\<rparr>
       ''out'' ''t'' []
     = (Inr (data_path ''out'' ''t'' line_suffix),
        [(data_path ''out'' ''t'' line_suffix, PngFile (LinePlot [] []))])"
    by (simp add: chart_line_release_vs_boxoffice_def require_columns_def out_columns_def
        expected_def column_def emit_def e)
  with read_header_only preprocess_no_rows [OF wf] show ?thesis
    by simp
qed

section \<open>The CSV export\<close>






end
